theory Spec2Isabelle
  imports Complex_Main
begin

section \<open>Exceptions and string formatting\<close>

text \<open>
  The Python exceptions the backend raises, each carrying its message.  A function that
  may raise returns \<open>exn + 'a\<close>, with \<open>Inl\<close> for the raised exception.
\<close>

datatype exn =
    ValueError string
  | RecursionError string
  | IndexError string
  | AttributeError string

fun str_exn :: "exn \<Rightarrow> string" where
  "str_exn (ValueError m) = m"
| "str_exn (RecursionError m) = m"
| "str_exn (IndexError m) = m"
| "str_exn (AttributeError m) = m"

fun is_recursion_error :: "exn \<Rightarrow> bool" where
  "is_recursion_error (RecursionError m) = True"
| "is_recursion_error e = False"

text \<open>Decimal rendering of an integer, as \<open>str(n)\<close> and the f-strings produce it.\<close>

function str_nat :: "nat \<Rightarrow> string" where
  "str_nat n =
     (if n < 10 then [''0123456789'' ! n]
      else str_nat (n div 10) @ [''0123456789'' ! (n mod 10)])"
  by pat_completeness auto
termination
  by (relation "measure (\<lambda>n. n)") auto

declare str_nat.simps [simp del]

definition str_int :: "int \<Rightarrow> string" where
  "str_int i = (if i < 0 then CHR ''-'' # str_nat (nat (- i)) else str_nat (nat i))"


section \<open>The recursion engine (\<open>recursive_algorithm.py\<close>)\<close>

text \<open>
  The interpreter's own recursion limit is modelled where a request can reach it: in
  \<open>generate_deep_tree\<close>, which the dispatcher calls with depths up to 10000 and more.
  The recursions of the engine stay, under the dispatcher's guards, within 35 frames
  (Fibonacci), 501 frames (tree traversal) and the 400 cells of the largest grid
  (pathfinding), and are modelled with the checks the source itself makes.
\<close>

subsection \<open>Engine state\<close>

text \<open>
  One entry of \<open>recursion_depth_metrics\<close>, as \<open>calculate_recursion_metrics\<close> builds it.
  The formatted \<open>datetime\<close> string and the \<open>system_metrics\<close> snapshot (process telemetry
  read through psutil) are left out; times are real numbers.
\<close>

record metric =
  m_timestamp :: real
  m_recursion_depth :: int
  m_execution_time :: real
  m_memory_usage :: int
  m_algorithm :: string
  m_success :: bool

text \<open>
  The fields of \<open>RecursiveAlgorithms\<close> that the dispatcher paths read or write.
  \<open>max_recursion_depth\<close> is fixed by the constructor to \<open>sys.getrecursionlimit() - 50\<close>.
  The \<open>memo\<close> cache belongs to \<open>fibonacci_memoized\<close> alone, which no dispatcher path
  calls; both are left out.
\<close>

record engine =
  max_recursion_depth :: int
  recursion_depth_metrics :: "metric list"

definition calculate_recursion_metrics ::
    "engine \<Rightarrow> real \<Rightarrow> int \<Rightarrow> real \<Rightarrow> int \<Rightarrow> string \<Rightarrow> bool \<Rightarrow> engine" where
  "calculate_recursion_metrics self timestamp n execution_time memory_usage algorithm success =
     self\<lparr>recursion_depth_metrics := recursion_depth_metrics self @
       [\<lparr>m_timestamp = timestamp, m_recursion_depth = n, m_execution_time = execution_time,
         m_memory_usage = memory_usage, m_algorithm = algorithm, m_success = success\<rparr>]\<rparr>"

subsection \<open>Fibonacci\<close>

text \<open>
  \<open>fibonacci_naive\<close> reads \<open>current_depth\<close> from the interpreter stack:
  \<open>len(sys._getframe(1).f_back.f_back.f_code.co_names)\<close>, the number of names of the code
  object three frames up.  What that expression yields is a fact of the host, so it is a
  parameter: \<open>frames level\<close> is the outcome for a call that has \<open>level\<close> frames of
  \<open>fibonacci_naive\<close> beneath it.  The outcome is the number read (0 where the interpreter
  has no \<open>sys._getframe\<close>), or the exception the expression raises on a stack that is
  not three frames deep: \<open>AttributeError\<close> when an \<open>f_back\<close> is \<open>None\<close>, \<open>ValueError\<close>
  when \<open>sys._getframe(1)\<close> finds no caller.  The exception leaves the function.  Python
  integers are unbounded: \<open>int\<close>.
\<close>

function fibonacci_naive ::
    "engine \<Rightarrow> (nat \<Rightarrow> exn + int) \<Rightarrow> nat \<Rightarrow> int \<Rightarrow> exn + int" where
  "fibonacci_naive self frames level n =
     (if n < 0 then Inl (ValueError ''Fibonacci not defined for negative numbers'')
      else if n \<le> 1 then Inr n
      else
        (case frames level of
           Inl e \<Rightarrow> Inl e
         | Inr current_depth \<Rightarrow>
             if current_depth > max_recursion_depth self
             then Inl (RecursionError
                         (''Approaching recursion limit at depth '' @ str_int current_depth))
             else
               (case fibonacci_naive self frames (Suc level) (n - 1) of
                  Inl e \<Rightarrow> Inl e
                | Inr a \<Rightarrow>
                    (case fibonacci_naive self frames (Suc level) (n - 2) of
                       Inl e \<Rightarrow> Inl e
                     | Inr b \<Rightarrow> Inr (a + b)))))"
  by pat_completeness auto
termination
  by (relation "measure (\<lambda>(self, frames, level, n). nat n)") auto

declare fibonacci_naive.simps [simp del]

text \<open>The loop \<open>for _ in range(2, n + 1): a, b = b, a + b\<close> is a fold over \<open>[2..n]\<close>.\<close>

definition fibonacci_iterative :: "int \<Rightarrow> exn + int" where
  "fibonacci_iterative n =
     (if n < 0 then Inl (ValueError ''Fibonacci not defined for negative numbers'')
      else if n \<le> 1 then Inr n
      else Inr (snd (fold (\<lambda>_ (a, b). (b, a + b)) [2..n] (0, 1))))"

subsection \<open>Trees and their traversals\<close>

text \<open>
  A tree node is a dict read through \<open>node.get('value')\<close> and
  \<open>node.get('children', [])\<close>: either key may be absent.  Stored values are strings (the
  generator stores nothing else); \<open>get('value')\<close> on a node without the key yields
  \<open>None\<close>.  A dict with neither key is the empty dict, the one dict that is falsy.
\<close>

datatype tree = Node (node_value: "string option") (node_children: "tree list option")

definition get_children :: "tree \<Rightarrow> tree list" where
  "get_children node = (case node_children node of None \<Rightarrow> [] | Some cs \<Rightarrow> cs)"

definition is_empty_dict :: "tree \<Rightarrow> bool" where
  "is_empty_dict node \<longleftrightarrow> node_value node = None \<and> node_children node = None"

text \<open>The number of nodes, the measure behind every recursion over trees.\<close>

fun tsize :: "tree \<Rightarrow> nat" where
  "tsize (Node v None) = 1"
| "tsize (Node v (Some cs)) = Suc (sum_list (map tsize cs))"

lemma tsize_get_children: "tsize node = Suc (sum_list (map tsize (get_children node)))"
  by (cases node rule: tsize.cases) (simp_all add: get_children_def)

lemma tsize_child: "c \<in> set (get_children node) \<Longrightarrow> tsize c < tsize node"
  unfolding tsize_get_children [of node]
  by (induction "get_children node") (auto simp: less_Suc_eq_le member_le_sum_list)

text \<open>
  \<open>tree_traversal_naive\<close>, with its loop over the children as the second function:
  \<open>results\<close> is extended child by child, and an exception of a recursive call leaves
  the loop at once.
\<close>

function tree_traversal_naive :: "tree \<Rightarrow> int \<Rightarrow> exn + string option list"
  and tree_traversal_naive_loop ::
    "tree list \<Rightarrow> int \<Rightarrow> string option list \<Rightarrow> exn + string option list"
where
  "tree_traversal_naive node depth =
     (if depth > 1000 then Inl (RecursionError ''Maximum recursion depth exceeded'')
      else tree_traversal_naive_loop (get_children node) depth [node_value node])"
| "tree_traversal_naive_loop [] depth results = Inr results"
| "tree_traversal_naive_loop (child # rest) depth results =
     (case tree_traversal_naive child (depth + 1) of
        Inl e \<Rightarrow> Inl e
      | Inr sub \<Rightarrow> tree_traversal_naive_loop rest depth (results @ sub))"
  by pat_completeness auto
termination
  by (relation "measure (\<lambda>a. case a of
          Inl (node, depth) \<Rightarrow> 2 * tsize node
        | Inr (cs, depth, results) \<Rightarrow> 2 * sum_list (map tsize cs) + 1)")
     (auto simp: tsize_get_children)

text \<open>
  The \<open>while stack\<close> loop of \<open>tree_traversal_iterative\<close>.  The stack is a Python list:
  \<open>pop()\<close> takes its last element and \<open>append\<close> adds at the end.
\<close>

function traversal_loop :: "tree list \<Rightarrow> string option list \<Rightarrow> string option list" where
  "traversal_loop stack results =
     (if stack = [] then results
      else
        let node = last stack;
            stack = butlast stack;
            results = results @ [node_value node];
            stack = stack @ rev (get_children node)
        in traversal_loop stack results)"
  by pat_completeness auto
termination
proof (relation "measure (\<lambda>(stack, results). sum_list (map tsize stack))")
  show "wf (measure (\<lambda>(stack, results). sum_list (map tsize stack)))" by simp
next
  fix stack :: "tree list" and results :: "string option list" and x xa xb xc
  assume ne: "stack \<noteq> []" and x: "x = last stack" and xa: "xa = butlast stack"
    and xc: "xc = xa @ rev (get_children x)"
  have "sum_list (map tsize (butlast stack @ [last stack])) =
      sum_list (map tsize (butlast stack)) + tsize (last stack)"
    by simp
  with append_butlast_last_id [OF ne]
  have "sum_list (map tsize stack) = sum_list (map tsize (butlast stack)) + tsize (last stack)"
    by simp
  moreover have "sum_list (map tsize xc) =
      sum_list (map tsize (butlast stack)) + sum_list (map tsize (get_children (last stack)))"
    by (simp add: xc xa x rev_map [symmetric])
  ultimately show "((xc, xb), (stack, results)) \<in>
      measure (\<lambda>(stack, results). sum_list (map tsize stack))"
    by (simp add: tsize_get_children [of "last stack"])
qed

declare traversal_loop.simps [simp del]

text \<open>\<open>if not root: return []\<close> is taken by the empty dict.\<close>

definition tree_traversal_iterative :: "tree \<Rightarrow> string option list" where
  "tree_traversal_iterative rt =
     (if is_empty_dict rt then [] else traversal_loop [rt] [])"

subsection \<open>Grid pathfinding\<close>

type_synonym cell = "int \<times> int"
type_synonym grid = "int list list"

text \<open>\<open>min(paths, key=len)\<close>: the first of the shortest elements.\<close>

fun min_by_len :: "'a list list \<Rightarrow> 'a list" where
  "min_by_len [] = []"
| "min_by_len (p # ps) = fold (\<lambda>q best. if length q < length best then q else best) ps p"

text \<open>
  \<open>pathfinding_naive\<close>, with the loop over the four directions as the second function.
  The default \<open>path=None\<close> is the empty list.  The bounds test reads the width from row 0;
  a row shorter than that makes \<open>grid[x][y]\<close> raise \<open>IndexError\<close>.
\<close>

function pathfinding_naive ::
    "grid \<Rightarrow> int \<Rightarrow> int \<Rightarrow> int \<Rightarrow> int \<Rightarrow> cell list \<Rightarrow> int \<Rightarrow> exn + cell list"
  and pathfinding_naive_loop ::
    "grid \<Rightarrow> int \<Rightarrow> int \<Rightarrow> int \<Rightarrow> int \<Rightarrow> cell list \<Rightarrow> int \<Rightarrow> (int \<times> int) list \<Rightarrow>
       cell list list \<Rightarrow> exn + cell list"
where
  "pathfinding_naive grid x y target_x target_y path depth =
     (if depth > 1000 then Inl (RecursionError ''Pathfinding recursion depth exceeded'')
      else if (x, y) \<in> set path then Inr []
      else if x < 0 \<or> x \<ge> int (length grid) \<or> y < 0 \<or> y \<ge> int (length (grid ! 0))
      then Inr []
      else if y \<ge> int (length (grid ! nat x))
      then Inl (IndexError ''list index out of range'')
      else if grid ! nat x ! nat y = 1 then Inr []
      else
        let current_path = path @ [(x, y)] in
        if x = target_x \<and> y = target_y then Inr current_path
        else pathfinding_naive_loop grid x y target_x target_y current_path depth
               [(1, 0), (-1, 0), (0, 1), (0, -1)] [])"
| "pathfinding_naive_loop grid x y target_x target_y current_path depth [] paths =
     Inr (if paths \<noteq> [] then min_by_len paths else [])"
| "pathfinding_naive_loop grid x y target_x target_y current_path depth ((dx, dy) # dirs) paths =
     (case pathfinding_naive grid (x + dx) (y + dy) target_x target_y current_path (depth + 1) of
        Inl e \<Rightarrow> Inl e
      | Inr new_path \<Rightarrow>
          pathfinding_naive_loop grid x y target_x target_y current_path depth dirs
            (if new_path \<noteq> [] then paths @ [new_path] else paths))"
  by pat_completeness auto
termination
  by (relation "measures
        [\<lambda>a. case a of
            Inl (grid, x, y, tx, ty, path, depth) \<Rightarrow>
              (if depth > 1000 then 0 else 2 * nat (1001 - depth) + 2)
          | Inr (grid, x, y, tx, ty, cp, depth, dirs, paths) \<Rightarrow> 2 * nat (1001 - depth) + 1,
         \<lambda>a. case a of
            Inl _ \<Rightarrow> 0
          | Inr (grid, x, y, tx, ty, cp, depth, dirs, paths) \<Rightarrow> length dirs]")
     auto

declare pathfinding_naive.simps [simp del]


section \<open>The dispatcher (\<open>optimization.py\<close>)\<close>

subsection \<open>Synthetic inputs\<close>

text \<open>
  \<open>generate_deep_tree\<close> recurses once per level, and the interpreter raises
  \<open>RecursionError\<close> when its call stack reaches the recursion limit.  How many nested calls
  the interpreter still admits where the dispatcher calls the generator, and the message
  it gives the exception, are facts of the host: \<open>room\<close> is the number of nested calls of
  \<open>generate_deep_tree\<close> that succeed, \<open>msg\<close> the message.  The label \<open>f"node_{depth}"\<close>
  is built before the recursive call, whose exception leaves the function.
\<close>

function generate_deep_tree :: "nat \<Rightarrow> string \<Rightarrow> int \<Rightarrow> exn + tree" where
  "generate_deep_tree room msg depth =
     (if room = 0 then Inl (RecursionError msg)
      else if depth \<le> 0 then Inr (Node (Some ''leaf'') (Some []))
      else
        (case generate_deep_tree (room - 1) msg (depth - 1) of
           Inl e \<Rightarrow> Inl e
         | Inr child \<Rightarrow> Inr (Node (Some (''node_'' @ str_int depth)) (Some [child]))))"
  by pat_completeness auto
termination
  by (relation "measure (\<lambda>(room, msg, depth). nat depth)") auto

declare generate_deep_tree.simps [simp del]

text \<open>
  \<open>generate_grid\<close>: the rows are separate lists, so the assignment
  \<open>grid[i][size // 2] = 1\<close> changes row \<open>i\<close> only; \<open>range(1, size - 1, 2)\<close> is the odd
  numbers from 1 below \<open>size - 1\<close>.
\<close>

definition generate_grid :: "int \<Rightarrow> grid" where
  "generate_grid sz =
     (let grid = replicate (nat sz) (replicate (nat sz) 0) in
      fold (\<lambda>i grid. grid[i := (grid ! i)[nat (sz div 2) := 1]])
        (filter odd [1..<nat (sz - 1)]) grid)"

subsection \<open>State, host readings and results\<close>

text \<open>
  The fields of \<open>OptimizedRecursion\<close>; \<open>max_workers\<close>, which nothing reads, is left out.
\<close>

record dispatcher =
  recursion_engine :: engine
  request_counter :: int
  error_counter :: int

text \<open>The constructor, given the host's \<open>sys.getrecursionlimit()\<close>.\<close>

definition new_dispatcher :: "int \<Rightarrow> dispatcher" where
  "new_dispatcher recursion_limit =
     \<lparr>recursion_engine =
        \<lparr>max_recursion_depth = recursion_limit - 50, recursion_depth_metrics = []\<rparr>,
      request_counter = 0, error_counter = 0\<rparr>"

text \<open>
  What one call of \<open>process_recursive_task\<close> reads from its host: the frame inspection of
  \<open>fibonacci_naive\<close>, the clock (\<open>now k\<close> is the value of the \<open>k\<close>-th call of
  \<open>time.time()\<close> during the call, counted from 0), the peak reported by \<open>tracemalloc\<close>,
  and the room the interpreter's recursion limit leaves to \<open>generate_deep_tree\<close> with the
  message of the \<open>RecursionError\<close> it raises beyond that room.
\<close>

record host =
  frame_names :: "nat \<Rightarrow> exn + int"
  now :: "nat \<Rightarrow> real"
  traced_peak :: int
  stack_room :: nat
  stack_overflow_message :: string

datatype result_value =
    IntResult int
  | ValuesResult "string option list"
  | PathResult "cell list"

text \<open>The returned dict; a key that a branch does not set is \<open>None\<close>.\<close>

record dispatch_result =
  success :: bool
  result :: "result_value option"
  error :: "string option"
  execution_time :: real
  memory_peak :: "int option"
  recursion_depth :: int
  request_id :: int

subsection \<open>One dispatch\<close>

text \<open>
  The body of the \<open>try\<close> block up to the value of \<open>result\<close>: the input validation, the
  guards and the call of the engine, in the order of the source.
\<close>

definition run_task :: "engine \<Rightarrow> host \<Rightarrow> string \<Rightarrow> int \<Rightarrow> bool \<Rightarrow> exn + result_value" where
  "run_task eng h algorithm n use_optimization =
     (if n \<le> 0 then Inl (ValueError ''Depth must be positive'')
      else if n > 10000 \<and> \<not> use_optimization
      then Inl (ValueError ''Unoptimized recursion depth too high'')
      else if algorithm = ''fibonacci'' then
        (if use_optimization then map_sum id IntResult (fibonacci_iterative n)
         else if n > 35
         then Inl (RecursionError (''Naive Fibonacci too slow for n='' @ str_int n))
         else map_sum id IntResult (fibonacci_naive eng (frame_names h) 0 n))
      else if algorithm = ''tree_traversal'' then
        (case generate_deep_tree (stack_room h) (stack_overflow_message h) n of
           Inl e \<Rightarrow> Inl e
         | Inr tree \<Rightarrow>
             if use_optimization then Inr (ValuesResult (tree_traversal_iterative tree))
             else if n > 500
             then Inl (RecursionError (''Naive tree traversal too deep for n='' @ str_int n))
             else map_sum id ValuesResult (tree_traversal_naive tree 0))
      else if algorithm = ''pathfinding'' then
        (let grid = generate_grid (min n 20) in
         map_sum id PathResult
           (pathfinding_naive grid 0 0 (min (n - 1) 19) (min (n - 1) 19) [] 0))
      else Inl (ValueError (''Unknown algorithm: '' @ algorithm)))"

text \<open>
  \<open>process_recursive_task\<close>: the counter is incremented first, then the \<open>try\<close> block
  runs and one of the three exits is taken.  The function is \<open>async\<close> but awaits nothing,
  so a call runs from start to end without another call in between.
\<close>

definition process_recursive_task ::
    "dispatcher \<Rightarrow> host \<Rightarrow> string \<Rightarrow> int \<Rightarrow> bool \<Rightarrow> dispatcher \<times> dispatch_result" where
  "process_recursive_task self h algorithm n use_optimization =
     (let self = self\<lparr>request_counter := request_counter self + 1\<rparr>;
          request_id = request_counter self;
          start_time = now h 0
      in case run_task (recursion_engine self) h algorithm n use_optimization of
           Inr res \<Rightarrow>
             let peak = traced_peak h;
                 execution_time = now h 1 - start_time;
                 self = self\<lparr>recursion_engine :=
                   calculate_recursion_metrics (recursion_engine self) (now h 2)
                     n execution_time peak algorithm True\<rparr>
             in (self,
                 \<lparr>success = True, result = Some res, error = None,
                  execution_time = execution_time, memory_peak = Some peak,
                  recursion_depth = n, request_id = request_id\<rparr>)
         | Inl e \<Rightarrow>
             if is_recursion_error e then
               let self = self\<lparr>error_counter := error_counter self + 1\<rparr>;
                   self = self\<lparr>recursion_engine :=
                     calculate_recursion_metrics (recursion_engine self) (now h 2)
                       n (now h 1 - start_time) 0 algorithm False\<rparr>
               in (self,
                   \<lparr>success = False, result = None,
                    error = Some (''RecursionError: '' @ str_exn e),
                    execution_time = now h 3 - start_time, memory_peak = None,
                    recursion_depth = n, request_id = request_id\<rparr>)
             else
               let self = self\<lparr>error_counter := error_counter self + 1\<rparr>
               in (self,
                   \<lparr>success = False, result = None,
                    error = Some (''Error: '' @ str_exn e),
                    execution_time = now h 1 - start_time, memory_peak = None,
                    recursion_depth = n, request_id = request_id\<rparr>))"

text \<open>
  Successive calls on one dispatcher, as the HTTP handler makes them, one per request,
  each with its own host readings; the results are kept in call order.
\<close>

record request =
  req_host :: host
  req_algorithm :: string
  req_depth :: int
  req_optimized :: bool

fun dispatch_all :: "dispatcher \<Rightarrow> request list \<Rightarrow> dispatcher \<times> dispatch_result list" where
  "dispatch_all self [] = (self, [])"
| "dispatch_all self (r # rs) =
     (let (self, res) = process_recursive_task self (req_host r) (req_algorithm r)
                          (req_depth r) (req_optimized r);
          (self, ress) = dispatch_all self rs
      in (self, res # ress))"

subsection \<open>Statistics\<close>

text \<open>
  The dict of \<open>get_performance_stats\<close> without \<open>system_metrics\<close>.  Python's float
  arithmetic is taken as real arithmetic.  \<open>max\<close> over a non-empty list is a fold.
\<close>

record stats =
  total_requests :: int
  successful_requests :: nat
  failed_requests :: nat
  error_rate :: real
  avg_execution_time :: real
  max_execution_time :: real

definition get_performance_stats :: "dispatcher \<Rightarrow> stats" where
  "get_performance_stats self =
     (let successful = filter m_success (recursion_depth_metrics (recursion_engine self));
          failed = filter (\<lambda>m. \<not> m_success m) (recursion_depth_metrics (recursion_engine self));
          execution_times = map m_execution_time successful
      in \<lparr>total_requests = request_counter self,
          successful_requests = length successful,
          failed_requests = length failed,
          error_rate =
            (if request_counter self > 0
             then real (length failed) / real_of_int (request_counter self) * 100 else 0),
          avg_execution_time =
            (if execution_times \<noteq> []
             then sum_list execution_times / real (length execution_times) else 0),
          max_execution_time =
            (if execution_times \<noteq> []
             then fold max (tl execution_times) (hd execution_times) else 0)\<rparr>)"


section \<open>Notions used in the statements\<close>


text \<open>The pre-order sequence of a tree, and its depth counted in edges.\<close>

fun preorder :: "tree \<Rightarrow> string option list" where
  "preorder (Node v None) = [v]"
| "preorder (Node v (Some cs)) = v # concat (map preorder cs)"

fun tree_depth :: "tree \<Rightarrow> nat" where
  "tree_depth (Node v None) = 0"
| "tree_depth (Node v (Some cs)) = fold max (map (\<lambda>c. Suc (tree_depth c)) cs) 0"

text \<open>A chain: no node has more than one child.\<close>

fun is_chain :: "tree \<Rightarrow> bool" where
  "is_chain (Node v None) = True"
| "is_chain (Node v (Some cs)) = (length cs \<le> 1 \<and> list_all is_chain cs)"

lemma preorder_get_children:
  "preorder node = node_value node # concat (map preorder (get_children node))"
  by (cases node rule: preorder.cases) (simp_all add: get_children_def)

lemma tree_depth_get_children:
  "tree_depth node = fold max (map (\<lambda>c. Suc (tree_depth c)) (get_children node)) 0"
  by (cases node rule: tree_depth.cases) (simp_all add: get_children_def)

lemma is_chain_get_children:
  "is_chain node \<longleftrightarrow>
     length (get_children node) \<le> 1 \<and> list_all is_chain (get_children node)"
  by (cases node rule: is_chain.cases) (simp_all add: get_children_def)

text \<open>The tree that \<open>generate_deep_tree\<close> builds when the interpreter lets it return.\<close>

function deep_tree :: "int \<Rightarrow> tree" where
  "deep_tree depth =
     (if depth \<le> 0 then Node (Some ''leaf'') (Some [])
      else Node (Some (''node_'' @ str_int depth)) (Some [deep_tree (depth - 1)]))"
  by pat_completeness auto
termination
  by (relation "measure nat") auto

declare deep_tree.simps [simp del]

text \<open>
  The cells of a grid, a grid whose rows all have the width of row 0 and hold no
  obstacle, and the Manhattan distance of two cells.
\<close>

definition cells :: "grid \<Rightarrow> cell set" where
  "cells g = {0..<int (length g)} \<times> {0..<int (length (g ! 0))}"

definition open_grid :: "grid \<Rightarrow> bool" where
  "open_grid g \<longleftrightarrow> list_all (\<lambda>row. length row = length (g ! 0) \<and> 1 \<notin> set row) g"

definition manhattan :: "int \<Rightarrow> int \<Rightarrow> int \<Rightarrow> int \<Rightarrow> nat" where
  "manhattan x y tx ty = nat \<bar>tx - x\<bar> + nat \<bar>ty - y\<bar>"


text \<open>
  The path from a cell down its column to the row of a target, then right along that
  row to the target.
\<close>

definition descent :: "int \<Rightarrow> int \<Rightarrow> int \<Rightarrow> int \<Rightarrow> cell list" where
  "descent x y tx ty = map (\<lambda>i. (i, y)) [x..tx] @ map (\<lambda>j. (tx, j)) [y + 1..ty]"

text \<open>
  The three kinds of dispatch result: successful; failed and recorded, which is the exit
  of the \<open>RecursionError\<close> handler, recognised by the prefix it puts on the error text;
  failed and not recorded, the exit of the generic handler.
\<close>

definition failed_recorded :: "dispatch_result \<Rightarrow> bool" where
  "failed_recorded r \<longleftrightarrow>
     \<not> success r \<and>
     (case error r of None \<Rightarrow> False | Some e \<Rightarrow> take 16 e = ''RecursionError: '')"

definition failed_unrecorded :: "dispatch_result \<Rightarrow> bool" where
  "failed_unrecorded r \<longleftrightarrow> \<not> success r \<and> \<not> failed_recorded r"


section \<open>Fibonacci: the two implementations agree\<close>







text \<open>
  On a host where the inspection fails, the naive function raises what the inspection
  raised, for every \<open>n \<ge> 2\<close>.
\<close>

lemma fibonacci_naive_inspection_fails:
  "1 < n \<Longrightarrow> frames level = Inl e \<Longrightarrow> fibonacci_naive self frames level n = Inl e"
  by (subst fibonacci_naive.simps) simp


section \<open>Tree traversal: the two implementations agree\<close>

lemma fold_max_ge_init: "(a::nat) \<le> fold max xs a"
  by (induction xs arbitrary: a) (auto intro: order_trans [OF max.cobounded2])

lemma fold_max_ge_member: "(x::nat) \<in> set xs \<Longrightarrow> x \<le> fold max xs a"
proof (induction xs arbitrary: a)
  case Nil
  then show ?case by simp
next
  case (Cons y ys)
  show ?case
  proof (cases "x = y")
    case True
    have "x \<le> max y a" using True by simp
    also have "\<dots> \<le> fold max ys (max y a)" by (rule fold_max_ge_init)
    finally show ?thesis by simp
  next
    case False
    with Cons.prems have "x \<in> set ys" by simp
    then show ?thesis using Cons.IH by simp
  qed
qed

lemma tree_depth_child:
  assumes "c \<in> set (get_children node)"
  shows "Suc (tree_depth c) \<le> tree_depth node"
proof -
  from assms
  have "Suc (tree_depth c) \<in> set (map (\<lambda>c. Suc (tree_depth c)) (get_children node))"
    by auto
  then show ?thesis
    by (subst tree_depth_get_children) (rule fold_max_ge_member)
qed

text \<open>The stack loop emits the pre-order of the stacked trees, topmost first.\<close>

lemma traversal_loop_preorder:
  "traversal_loop stack results = results @ concat (map preorder (rev stack))"
proof (induction stack results rule: traversal_loop.induct)
  case (1 stack results)
  show ?case
  proof (cases "stack = []")
    case True
    then show ?thesis by (simp add: traversal_loop.simps)
  next
    case False
    then have split: "stack = butlast stack @ [last stack]" by simp
    have "traversal_loop stack results =
        traversal_loop (butlast stack @ rev (get_children (last stack)))
          (results @ [node_value (last stack)])"
      using False by (subst traversal_loop.simps) (simp add: Let_def)
    also have "\<dots> = (results @ [node_value (last stack)]) @
        concat (map preorder (rev (butlast stack @ rev (get_children (last stack)))))"
      using False by (intro "1.IH") simp_all
    also have "\<dots> =
        results @ preorder (last stack) @ concat (map preorder (rev (butlast stack)))"
      by (simp add: preorder_get_children [of "last stack"])
    also have "\<dots> = results @ concat (map preorder (rev stack))"
      by (subst (3) split) simp
    finally show ?thesis .
  qed
qed

lemma tree_traversal_iterative_preorder:
  "\<not> is_empty_dict rt \<Longrightarrow> tree_traversal_iterative rt = preorder rt"
  by (simp add: tree_traversal_iterative_def traversal_loop_preorder)

text \<open>
  The recursive traversal returns the pre-order whenever the depth it starts at plus the
  depth of the tree stays within the ceiling of 1000.
\<close>

lemma tree_traversal_naive_preorder:
  "int (tree_depth node) + depth \<le> 1000 \<Longrightarrow>
     tree_traversal_naive node depth = Inr (preorder node)"
  "(\<forall>c \<in> set cs. int (tree_depth c) + depth + 1 \<le> 1000) \<Longrightarrow>
     tree_traversal_naive_loop cs depth results = Inr (results @ concat (map preorder cs))"
proof (induction node depth and cs depth results
    rule: tree_traversal_naive_tree_traversal_naive_loop.induct)
  case (1 node depth)
  have "\<forall>c \<in> set (get_children node). int (tree_depth c) + depth + 1 \<le> 1000"
  proof
    fix c assume "c \<in> set (get_children node)"
    from tree_depth_child [OF this] "1.prems" show "int (tree_depth c) + depth + 1 \<le> 1000"
      by linarith
  qed
  moreover have "\<not> depth > 1000" using "1.prems" by linarith
  ultimately show ?case
    using "1.IH" by (simp add: preorder_get_children [of node])
next
  case (2 depth results)
  show ?case by simp
next
  case (3 child rest depth results)
  have "tree_traversal_naive child (depth + 1) = Inr (preorder child)"
    using "3.prems" by (intro "3.IH"(1)) simp
  moreover have "tree_traversal_naive_loop rest depth (results @ preorder child) =
      Inr ((results @ preorder child) @ concat (map preorder rest))"
    using "3.prems" calculation by (intro "3.IH"(2)) simp_all
  ultimately show ?case by simp
qed

text \<open>
  Claim C2.  For every tree \<open>T\<close> of depth at most 200, \<open>tree_traversal_naive(T)\<close> and
  \<open>tree_traversal_iterative(T)\<close> produce identical value sequences.  A tree is a node,
  that is a dict that is not empty (the empty dict is what \<open>if not root\<close> sets apart);
  the naive traversal starts at its default \<open>depth = 0\<close> and returns without an
  exception.
\<close>

theorem tree_traversal_naive_eq_iterative:
  assumes "\<not> is_empty_dict T" and "tree_depth T \<le> 200"
  shows "tree_traversal_naive T 0 = Inr (tree_traversal_iterative T)"
proof -
  from assms(2) have "int (tree_depth T) + 0 \<le> 1000" by simp
  then have "tree_traversal_naive T 0 = Inr (preorder T)"
    by (rule tree_traversal_naive_preorder(1))
  with assms(1) show ?thesis by (simp add: tree_traversal_iterative_preorder)
qed

theorem tree_traversal_naive_eq_iterative_witness:
  "tree_traversal_naive
     (Node (Some ''a'') (Some [Node (Some ''b'') (Some [Node (Some ''c'') None]),
                               Node None None, Node (Some ''d'') (Some [])])) 0
   = Inr [Some ''a'', Some ''b'', Some ''c'', None, Some ''d''] \<and>
   tree_traversal_iterative
     (Node (Some ''a'') (Some [Node (Some ''b'') (Some [Node (Some ''c'') None]),
                               Node None None, Node (Some ''d'') (Some [])]))
   = [Some ''a'', Some ''b'', Some ''c'', None, Some ''d'']"
proof -
  let ?T = "Node (Some ''a'') (Some [Node (Some ''b'') (Some [Node (Some ''c'') None]),
                               Node None None, Node (Some ''d'') (Some [])])"
  have ne: "\<not> is_empty_dict ?T" by (simp add: is_empty_dict_def)
  have d: "tree_depth ?T \<le> 200" by simp
  have it: "tree_traversal_iterative ?T = [Some ''a'', Some ''b'', Some ''c'', None, Some ''d'']"
    by (simp add: tree_traversal_iterative_def is_empty_dict_def traversal_loop.simps
        get_children_def)
  from tree_traversal_naive_eq_iterative [OF ne d] it show ?thesis by simp
qed


section \<open>Pathfinding on an open grid\<close>

lemma min_by_len_fold_mem:
  "fold (\<lambda>q best. if length q < length best then q else best) ps p \<in> set (p # ps)"
  by (induction ps arbitrary: p) auto

lemma min_by_len_fold_le_init:
  "length (fold (\<lambda>q best. if length q < length best then q else best) ps p) \<le> length p"
proof (induction ps arbitrary: p)
  case Nil
  show ?case by simp
next
  case (Cons a ps)
  have "length (fold (\<lambda>q best. if length q < length best then q else best) ps
      (if length a < length p then a else p)) \<le> length (if length a < length p then a else p)"
    by (rule Cons.IH)
  also have "\<dots> \<le> length p" by simp
  finally show ?case by simp
qed

lemma min_by_len_fold_le:
  "q \<in> set ps \<Longrightarrow>
     length (fold (\<lambda>q best. if length q < length best then q else best) ps p) \<le> length q"
proof (induction ps arbitrary: p)
  case Nil
  then show ?case by simp
next
  case (Cons a ps)
  show ?case
  proof (cases "q \<in> set ps")
    case True
    then show ?thesis using Cons.IH by simp
  next
    case False
    with Cons.prems have q: "q = a" by simp
    have "length (fold (\<lambda>q best. if length q < length best then q else best) ps
        (if length a < length p then a else p)) \<le> length (if length a < length p then a else p)"
      by (rule min_by_len_fold_le_init)
    also have "\<dots> \<le> length a" by simp
    finally show ?thesis by (simp add: q)
  qed
qed

lemma min_by_len_mem: "ps \<noteq> [] \<Longrightarrow> min_by_len ps \<in> set ps"
  using min_by_len_fold_mem by (cases ps) auto

lemma min_by_len_le: "q \<in> set ps \<Longrightarrow> length (min_by_len ps) \<le> length q"
  using min_by_len_fold_le min_by_len_fold_le_init by (cases ps) auto

lemma pathfinding_naive_loop_eval:
  assumes "\<forall>d \<in> set dirs. \<exists>r.
      pathfinding_naive g (x + fst d) (y + snd d) tx ty cp (depth + 1) = Inr r"
  shows "pathfinding_naive_loop g x y tx ty cp depth dirs paths =
      Inr (let ps = paths @ filter (\<lambda>r. r \<noteq> [])
                 (map (\<lambda>d. projr (pathfinding_naive g (x + fst d) (y + snd d) tx ty cp (depth + 1))) dirs)
           in if ps \<noteq> [] then min_by_len ps else [])"
  using assms
proof (induction dirs arbitrary: paths)
  case Nil
  show ?case by simp
next
  case (Cons d dirs)
  obtain dx dy where d: "d = (dx, dy)" by (cases d)
  from Cons.prems obtain r where
    r: "pathfinding_naive g (x + dx) (y + dy) tx ty cp (depth + 1) = Inr r"
    by (auto simp: d)
  from Cons.prems have rest: "\<forall>d \<in> set dirs. \<exists>r.
      pathfinding_naive g (x + fst d) (y + snd d) tx ty cp (depth + 1) = Inr r"
    by simp
  show ?case
    by (simp add: d r Cons.IH [OF rest] Let_def)
qed

lemma card_cells: "card (cells g) = length g * length (g ! 0)"
  by (simp add: cells_def card_cartesian_product)

lemma path_length_le_cells:
  assumes "distinct path" and "set path \<subseteq> cells g"
  shows "length path \<le> length g * length (g ! 0)"
proof -
  have "finite (cells g)" by (simp add: cells_def)
  then have "card (set path) \<le> card (cells g)" using assms(2) by (rule card_mono)
  with assms(1) show ?thesis by (simp add: distinct_card card_cells)
qed

lemma open_grid_cell:
  assumes "open_grid g" and "(x, y) \<in> cells g"
  shows "\<not> y \<ge> int (length (g ! nat x))" and "g ! nat x ! nat y \<noteq> 1"
proof -
  from assms(2) have x: "nat x < length g" and y: "nat y < length (g ! 0)" and "0 \<le> y"
    by (auto simp: cells_def)
  then have row: "g ! nat x \<in> set g" by simp
  with assms(1) have len: "length (g ! nat x) = length (g ! 0)" and free: "1 \<notin> set (g ! nat x)"
    by (auto simp: open_grid_def list_all_iff)
  from len y \<open>0 \<le> y\<close> show "\<not> y \<ge> int (length (g ! nat x))" by simp
  from len y have "g ! nat x ! nat y \<in> set (g ! nat x)" by simp
  with free show "g ! nat x ! nat y \<noteq> 1" by metis
qed

lemma manhattan_neighbour:
  assumes "d \<in> set [(1, 0), (-1, 0), (0, 1), (0, -1)]"
  shows "manhattan x y tx ty \<le> Suc (manhattan (x + fst d) (y + snd d) tx ty)"
  using assms by (auto simp: manhattan_def)

lemma pathfinding_naive_bounds:
  assumes og: "open_grid g" and small: "length g * length (g ! 0) \<le> 1000"
  shows "distinct path \<Longrightarrow> set path \<subseteq> cells g \<Longrightarrow> depth \<le> int (length path) \<Longrightarrow>
    \<exists>p. pathfinding_naive g x y tx ty path depth = Inr p \<and>
      (p \<noteq> [] \<longrightarrow> length path + 1 + manhattan x y tx ty \<le> length p) \<and>
      (0 \<le> x \<and> x \<le> tx \<and> tx < int (length g) \<and> 0 \<le> y \<and> y \<le> ty \<and> ty < int (length (g ! 0)) \<and>
         (\<forall>(a, b) \<in> set path. a < x \<or> b < y) \<longrightarrow>
       p \<noteq> [] \<and> length p \<le> length path + 1 + manhattan x y tx ty)"
proof (induction "length g * length (g ! 0) - length path" arbitrary: path x y depth rule: less_induct)
  case less
  let ?ahead = "0 \<le> x \<and> x \<le> tx \<and> tx < int (length g) \<and> 0 \<le> y \<and> y \<le> ty \<and> ty < int (length (g ! 0)) \<and>
         (\<forall>(a, b) \<in> set path. a < x \<or> b < y)"
  have len: "length path \<le> length g * length (g ! 0)"
    using less.prems by (intro path_length_le_cells)
  with small less.prems have depth: "\<not> depth > 1000" by linarith
  show ?case
  proof (cases "(x, y) \<in> set path \<or> (x, y) \<notin> cells g")
    case True
    then have "pathfinding_naive g x y tx ty path depth = Inr []"
      using depth by (subst pathfinding_naive.simps) (auto simp: cells_def)
    moreover have "\<not> ?ahead" using True by (auto simp: cells_def)
    ultimately show ?thesis by simp
  next
    case False
    then have fresh: "(x, y) \<notin> set path" and cell: "(x, y) \<in> cells g" by simp_all
    let ?cp = "path @ [(x, y)]"
    have cp: "distinct ?cp" "set ?cp \<subseteq> cells g" "depth + 1 \<le> int (length ?cp)"
      using fresh cell less.prems by simp_all
    have unfold: "pathfinding_naive g x y tx ty path depth =
        (if x = tx \<and> y = ty then Inr ?cp
         else pathfinding_naive_loop g x y tx ty ?cp depth [(1, 0), (-1, 0), (0, 1), (0, -1)] [])"
      using depth fresh cell open_grid_cell [OF og cell]
      by (subst pathfinding_naive.simps) (simp add: cells_def Let_def)
    show ?thesis
    proof (cases "x = tx \<and> y = ty")
      case True
      with unfold have "pathfinding_naive g x y tx ty path depth = Inr ?cp" by simp
      with True show ?thesis by (simp add: manhattan_def)
    next
      case False
      have cplen: "length ?cp \<le> length g * length (g ! 0)"
        using cp by (intro path_length_le_cells)
      define dirs :: "(int \<times> int) list" where "dirs = [(1, 0), (-1, 0), (0, 1), (0, -1)]"
      let ?call = "\<lambda>d. pathfinding_naive g (x + fst d) (y + snd d) tx ty ?cp (depth + 1)"
      define rs where "rs = filter (\<lambda>r. r \<noteq> []) (map (\<lambda>d. projr (?call d)) dirs)"
      have IH: "\<exists>p. ?call d = Inr p \<and>
          (p \<noteq> [] \<longrightarrow> length ?cp + 1 + manhattan (x + fst d) (y + snd d) tx ty \<le> length p) \<and>
          (0 \<le> x + fst d \<and> x + fst d \<le> tx \<and> tx < int (length g) \<and> 0 \<le> y + snd d \<and>
             y + snd d \<le> ty \<and> ty < int (length (g ! 0)) \<and>
             (\<forall>(a, b) \<in> set ?cp. a < x + fst d \<or> b < y + snd d) \<longrightarrow>
           p \<noteq> [] \<and> length p \<le> length ?cp + 1 + manhattan (x + fst d) (y + snd d) tx ty)" for d
        using cplen cp by (intro less.hyps) simp_all
      then have all_ok: "\<forall>d \<in> set dirs. \<exists>r. ?call d = Inr r"
        by blast
      define p where "p = (if rs \<noteq> [] then min_by_len rs else [])"
      have "pathfinding_naive_loop g x y tx ty ?cp depth dirs [] = Inr p"
        unfolding p_def rs_def using pathfinding_naive_loop_eval [OF all_ok, of "[]"]
        by (simp only: Let_def append_Nil)
      with False have res: "pathfinding_naive g x y tx ty path depth = Inr p"
        by (simp only: unfold dirs_def if_False)
      have lower: "length path + 1 + manhattan x y tx ty \<le> length p" if "p \<noteq> []"
      proof -
        from that have "rs \<noteq> []" and "p = min_by_len rs" by (auto simp: p_def split: if_splits)
        then have "p \<in> set rs" using min_by_len_mem by metis
        then obtain d where d: "d \<in> set dirs"
          and pd: "p = projr (?call d)" by (auto simp: rs_def)
        from IH [of d] pd that
        have "length ?cp + 1 + manhattan (x + fst d) (y + snd d) tx ty \<le> length p" by auto
        with manhattan_neighbour [of d x y tx ty] d show ?thesis by (simp add: dirs_def)
      qed
      have upper: "p \<noteq> [] \<and> length p \<le> length path + 1 + manhattan x y tx ty" if ahead: ?ahead
      proof -
        define d :: "int \<times> int" where "d = (if x < tx then (1, 0) else (0, 1))"
        have d: "d \<in> set dirs" by (simp add: d_def dirs_def)
        have step: "0 \<le> x + fst d \<and> x + fst d \<le> tx \<and> 0 \<le> y + snd d \<and> y + snd d \<le> ty"
          using ahead False by (auto simp: d_def)
        have behind: "\<forall>(a, b) \<in> set ?cp. a < x + fst d \<or> b < y + snd d"
          using ahead by (auto simp: d_def)
        have dist: "Suc (manhattan (x + fst d) (y + snd d) tx ty) = manhattan x y tx ty"
          using ahead False by (auto simp: d_def manhattan_def)
        from IH [of d] step behind ahead obtain r where r: "?call d = Inr r" "r \<noteq> []"
          "length r \<le> length ?cp + 1 + manhattan (x + fst d) (y + snd d) tx ty"
          by auto
        from r d have mem: "r \<in> set rs" by (force simp: rs_def)
        then have "rs \<noteq> []" by auto
        then have p: "p = min_by_len rs" by (simp add: p_def)
        with \<open>rs \<noteq> []\<close> have "p \<in> set rs" using min_by_len_mem by metis
        then have "p \<noteq> []" by (auto simp: rs_def)
        moreover have "length p \<le> length r" unfolding p using mem by (rule min_by_len_le)
        ultimately show ?thesis using r(3) dist by simp
      qed
      from res lower upper show ?thesis by blast
    qed
  qed
qed

lemma min_by_len_fold_keep:
  "(\<forall>q \<in> set ps. length p \<le> length q) \<Longrightarrow>
     fold (\<lambda>q best. if length q < length best then q else best) ps p = p"
  by (induction ps) auto

lemma min_by_len_fold_first:
  "length r < length b \<Longrightarrow> (\<forall>q \<in> set pre. length r < length q) \<Longrightarrow>
   (\<forall>q \<in> set post. length r \<le> length q) \<Longrightarrow>
     fold (\<lambda>q best. if length q < length best then q else best) (pre @ r # post) b = r"
proof (induction pre arbitrary: b)
  case Nil
  then show ?case by (simp add: min_by_len_fold_keep)
next
  case (Cons a pre)
  have "length r < length (if length a < length b then a else b)"
    using Cons.prems by simp
  from Cons.IH [OF this] Cons.prems show ?case by simp
qed

lemma min_by_len_first:
  assumes "\<forall>q \<in> set pre. length r < length q" and "\<forall>q \<in> set post. length r \<le> length q"
  shows "min_by_len (pre @ r # post) = r"
proof (cases pre)
  case Nil
  with assms show ?thesis by (simp add: min_by_len_fold_keep)
next
  case (Cons a pre')
  with assms have "length r < length a" and "\<forall>q \<in> set pre'. length r < length q" by simp_all
  from min_by_len_fold_first [OF this assms(2)] Cons show ?thesis by simp
qed

lemma pathfinding_naive_step:
  assumes "open_grid g" and "\<not> depth > 1000" and "(x, y) \<notin> set path" and "(x, y) \<in> cells g"
  shows "pathfinding_naive g x y tx ty path depth =
    (if x = tx \<and> y = ty then Inr (path @ [(x, y)])
     else pathfinding_naive_loop g x y tx ty (path @ [(x, y)]) depth
            [(1, 0), (-1, 0), (0, 1), (0, -1)] [])"
  using assms(2-4) open_grid_cell [OF assms(1,4)]
  by (subst pathfinding_naive.simps) (simp add: cells_def Let_def)

lemma descent_target: "descent tx ty tx ty = [(tx, ty)]"
  by (simp add: descent_def)

lemma descent_down: "x < tx \<Longrightarrow> descent x y tx ty = (x, y) # descent (x + 1) y tx ty"
  by (simp add: descent_def upto_rec1 [of x tx])

lemma descent_right: "y < ty \<Longrightarrow> descent tx y tx ty = (tx, y) # descent tx (y + 1) tx ty"
  by (simp add: descent_def upto_rec1 [of "y + 1" ty])

text \<open>
  With the target below and to the right, and the current path behind, the search
  returns the path that first goes down to the row of the target and then right: it is
  found first, and nothing found later is shorter.
\<close>

lemma pathfinding_naive_descent:
  assumes og: "open_grid g" and small: "length g * length (g ! 0) \<le> 1000"
  shows "distinct path \<Longrightarrow> set path \<subseteq> cells g \<Longrightarrow> depth \<le> int (length path) \<Longrightarrow>
    0 \<le> x \<Longrightarrow> x \<le> tx \<Longrightarrow> tx < int (length g) \<Longrightarrow>
    0 \<le> y \<Longrightarrow> y \<le> ty \<Longrightarrow> ty < int (length (g ! 0)) \<Longrightarrow>
    (\<forall>(a, b) \<in> set path. a < x \<or> b < y) \<Longrightarrow>
    pathfinding_naive g x y tx ty path depth = Inr (path @ descent x y tx ty)"
proof (induction "manhattan x y tx ty" arbitrary: path x y depth rule: less_induct)
  case less
  let ?cp = "path @ [(x, y)]"
  have fresh: "(x, y) \<notin> set path" using less.prems(10) by auto
  have cell: "(x, y) \<in> cells g" using less.prems by (simp add: cells_def)
  have "length path \<le> length g * length (g ! 0)"
    using less.prems by (intro path_length_le_cells)
  with small less.prems have depth: "\<not> depth > 1000" by linarith
  have cp: "distinct ?cp" "set ?cp \<subseteq> cells g" "depth + 1 \<le> int (length ?cp)"
    using fresh cell less.prems by simp_all
  note step = pathfinding_naive_step [OF og depth fresh cell, of tx ty]
  show ?case
  proof (cases "x = tx \<and> y = ty")
    case True
    with step show ?thesis by (simp add: descent_target)
  next
    case False
    define c where "c = (\<lambda>d. projr
        (pathfinding_naive g (x + fst d) (y + snd d) tx ty ?cp (depth + 1)))"
    have call: "pathfinding_naive g (x + fst d) (y + snd d) tx ty ?cp (depth + 1) = Inr (c d)"
      and lower: "c d \<noteq> [] \<Longrightarrow>
        length ?cp + 1 + manhattan (x + fst d) (y + snd d) tx ty \<le> length (c d)" for d
      using pathfinding_naive_bounds [OF og small cp, of "x + fst d" "y + snd d" tx ty]
      by (auto simp: c_def)
    define dirs :: "(int \<times> int) list" where "dirs = [(1, 0), (-1, 0), (0, 1), (0, -1)]"
    have all_ok: "\<forall>d \<in> set dirs. \<exists>r.
        pathfinding_naive g (x + fst d) (y + snd d) tx ty ?cp (depth + 1) = Inr r"
      using call by blast
    define rs where "rs = filter (\<lambda>r. r \<noteq> []) (map c dirs)"
    have "pathfinding_naive_loop g x y tx ty ?cp depth dirs [] =
        Inr (if rs \<noteq> [] then min_by_len rs else [])"
      unfolding rs_def c_def using pathfinding_naive_loop_eval [OF all_ok, of "[]"]
      by (simp only: Let_def append_Nil)
    with False have res: "pathfinding_naive g x y tx ty path depth =
        Inr (if rs \<noteq> [] then min_by_len rs else [])"
      by (simp only: step dirs_def if_False)
    have rs: "rs = filter (\<lambda>r. r \<noteq> []) [c (1, 0), c (-1, 0), c (0, 1), c (0, -1)]"
      by (simp only: rs_def dirs_def list.map)
    have far: "length ?cp + manhattan x y tx ty \<le> length (c d)"
      if "c d \<noteq> []" and "d \<in> set [(1, 0), (-1, 0), (0, 1), (0, -1)]" for d
      using lower [OF that(1)] manhattan_neighbour [OF that(2), of x y tx ty] by simp
    show ?thesis
    proof (cases "x < tx")
      case True
      have "manhattan (x + 1) y tx ty < manhattan x y tx ty"
        using True less.prems by (simp add: manhattan_def)
      then have c1: "pathfinding_naive g (x + 1) y tx ty ?cp (depth + 1) =
          Inr (?cp @ descent (x + 1) y tx ty)"
        using True less.prems cp by (intro less.hyps) auto
      with call [of "(1, 0)"] have c1': "c (1, 0) = ?cp @ descent (x + 1) y tx ty" by simp
      have len1: "length (c (1, 0)) = length ?cp + manhattan x y tx ty"
        using True less.prems by (simp add: c1' descent_def manhattan_def)
      have "rs = c (1, 0) # filter (\<lambda>r. r \<noteq> []) [c (-1, 0), c (0, 1), c (0, -1)]"
        by (simp add: rs c1')
      moreover have "\<forall>q \<in> set (filter (\<lambda>r. r \<noteq> []) [c (-1, 0), c (0, 1), c (0, -1)]).
          length (c (1, 0)) \<le> length q"
        using far len1 by auto
      ultimately have "min_by_len rs = c (1, 0)" and "rs \<noteq> []"
        using min_by_len_first [of "[]" "c (1, 0)"] by simp_all
      with res show ?thesis by (simp add: c1' descent_down [OF True])
    next
      case False
      with \<open>\<not> (x = tx \<and> y = ty)\<close> less.prems have x: "x = tx" and y: "y < ty" by simp_all
      have "manhattan x (y + 1) tx ty < manhattan x y tx ty"
        using y by (simp add: manhattan_def)
      then have c3: "pathfinding_naive g x (y + 1) tx ty ?cp (depth + 1) =
          Inr (?cp @ descent x (y + 1) tx ty)"
        using y less.prems cp by (intro less.hyps) auto
      with call [of "(0, 1)"] have c3': "c (0, 1) = ?cp @ descent x (y + 1) tx ty" by simp
      have len3: "length (c (0, 1)) = length ?cp + manhattan x y tx ty"
        using x y less.prems by (simp add: c3' descent_def manhattan_def)
      have pre: "\<forall>q \<in> set (filter (\<lambda>r. r \<noteq> []) [c (1, 0), c (-1, 0)]).
          length (c (0, 1)) < length q"
      proof
        fix q assume "q \<in> set (filter (\<lambda>r. r \<noteq> []) [c (1, 0), c (-1, 0)])"
        then have "q \<in> {r \<in> set [c (1, 0), c (-1, 0)]. r \<noteq> []}"
          by (simp only: set_filter)
        then consider "q = c (1, 0)" "c (1, 0) \<noteq> []" | "q = c (-1, 0)" "c (-1, 0) \<noteq> []"
          by auto
        then show "length (c (0, 1)) < length q"
        proof cases
          case 1
          from lower [OF 1(2)] show ?thesis
            using x y by (simp add: 1(1) len3 manhattan_def)
        next
          case 2
          from lower [OF 2(2)] show ?thesis
            using x y by (simp add: 2(1) len3 manhattan_def)
        qed
      qed
      have post: "\<forall>q \<in> set (filter (\<lambda>r. r \<noteq> []) [c (0, -1)]).
          length (c (0, 1)) \<le> length q"
        using far len3 by auto
      have "rs = filter (\<lambda>r. r \<noteq> []) [c (1, 0), c (-1, 0)] @
          c (0, 1) # filter (\<lambda>r. r \<noteq> []) [c (0, -1)]"
        by (simp add: rs c3')
      with min_by_len_first [OF pre post] have "min_by_len rs = c (0, 1)" and "rs \<noteq> []"
        by simp_all
      with res show ?thesis by (simp add: c3' x descent_right [OF y])
    qed
  qed
qed

text \<open>
  Claim C8.  \<open>pathfinding_naive\<close>, exploring the neighbours in the order down, up, right,
  left and skipping cells already on the current path, called on a 5 by 5 grid without
  obstacles from (0, 0) to (4, 4), returns without an exception a path of exactly 9
  cells, the start cell and 8 moves: down the first column, then right along the last
  row.  No path that the search discovers is shorter, and this one is discovered first.
\<close>

theorem pathfinding_naive_five_by_five:
  "pathfinding_naive (replicate 5 (replicate 5 0)) 0 0 4 4 [] 0 =
     Inr [(0, 0), (1, 0), (2, 0), (3, 0), (4, 0), (4, 1), (4, 2), (4, 3), (4, 4)] \<and>
   length [(0, 0), (1, 0), (2, 0), (3, 0), (4, 0), (4, 1), (4, 2), (4, 3), (4::int, 4::int)] = 9"
proof -
  have og: "open_grid (replicate 5 (replicate 5 0))" by (simp add: open_grid_def list_all_iff)
  have small: "length (replicate 5 (replicate 5 (0::int))) *
      length (replicate 5 (replicate 5 (0::int)) ! 0) \<le> 1000"
    by simp
  have "pathfinding_naive (replicate 5 (replicate 5 0)) 0 0 4 4 [] 0 =
      Inr ([] @ descent 0 0 4 4)"
    by (rule pathfinding_naive_descent [OF og small]) simp_all
  moreover have "descent 0 0 4 4 =
      [(0, 0), (1, 0), (2, 0), (3, 0), (4, 0), (4, 1), (4, 2), (4, 3), (4, 4)]"
    by (simp add: descent_def upto_rec1)
  ultimately show ?thesis by simp
qed


section \<open>The generated tree\<close>

lemma deep_tree_leaf:
  "depth \<le> 0 \<Longrightarrow> deep_tree depth = Node (Some ''leaf'') (Some [])"
  by (subst deep_tree.simps) simp

lemma deep_tree_node:
  "0 < depth \<Longrightarrow> deep_tree depth =
     Node (Some (''node_'' @ str_int depth)) (Some [deep_tree (depth - 1)])"
  by (subst deep_tree.simps) simp



text \<open>
  The generator returns exactly when the interpreter admits more nested calls than the
  depth asks for (a tree of depth \<open>d\<close> takes \<open>d + 1\<close> calls); otherwise it raises the
  interpreter's \<open>RecursionError\<close>.
\<close>

lemma generate_deep_tree_returns:
  "nat depth < room \<Longrightarrow> generate_deep_tree room msg depth = Inr (deep_tree depth)"
proof (induction room arbitrary: depth)
  case 0
  then show ?case by simp
next
  case (Suc room)
  show ?case
  proof (cases "depth \<le> 0")
    case True
    then show ?thesis by (subst generate_deep_tree.simps) (simp add: deep_tree_leaf)
  next
    case False
    with Suc.prems have "nat (depth - 1) < room" by simp
    from Suc.IH [OF this] False show ?thesis
      by (subst generate_deep_tree.simps) (simp add: deep_tree_node)
  qed
qed

lemma generate_deep_tree_overflows:
  "room \<le> nat depth \<Longrightarrow> generate_deep_tree room msg depth = Inl (RecursionError msg)"
proof (induction room arbitrary: depth)
  case 0
  show ?case by (subst generate_deep_tree.simps) simp
next
  case (Suc room)
  then have pos: "\<not> depth \<le> 0" and less: "room \<le> nat (depth - 1)" by simp_all
  from Suc.IH [OF less] pos show ?case by (subst generate_deep_tree.simps) simp
qed





section \<open>One dispatch: the three exits\<close>

lemma process_recursive_task_Inr:
  assumes "run_task (recursion_engine self) h algorithm n use_optimization = Inr res"
  shows "process_recursive_task self h algorithm n use_optimization =
    (self\<lparr>request_counter := request_counter self + 1,
          recursion_engine := calculate_recursion_metrics (recursion_engine self) (now h 2)
            n (now h 1 - now h 0) (traced_peak h) algorithm True\<rparr>,
     \<lparr>success = True, result = Some res, error = None,
      execution_time = now h 1 - now h 0, memory_peak = Some (traced_peak h),
      recursion_depth = n, request_id = request_counter self + 1\<rparr>)"
  using assms by (simp add: process_recursive_task_def Let_def)

lemma process_recursive_task_recursion_error:
  assumes "run_task (recursion_engine self) h algorithm n use_optimization = Inl e"
    and "is_recursion_error e"
  shows "process_recursive_task self h algorithm n use_optimization =
    (self\<lparr>request_counter := request_counter self + 1,
          error_counter := error_counter self + 1,
          recursion_engine := calculate_recursion_metrics (recursion_engine self) (now h 2)
            n (now h 1 - now h 0) 0 algorithm False\<rparr>,
     \<lparr>success = False, result = None, error = Some (''RecursionError: '' @ str_exn e),
      execution_time = now h 3 - now h 0, memory_peak = None,
      recursion_depth = n, request_id = request_counter self + 1\<rparr>)"
  using assms by (simp add: process_recursive_task_def Let_def)

lemma process_recursive_task_other_error:
  assumes "run_task (recursion_engine self) h algorithm n use_optimization = Inl e"
    and "\<not> is_recursion_error e"
  shows "process_recursive_task self h algorithm n use_optimization =
    (self\<lparr>request_counter := request_counter self + 1,
          error_counter := error_counter self + 1\<rparr>,
     \<lparr>success = False, result = None, error = Some (''Error: '' @ str_exn e),
      execution_time = now h 1 - now h 0, memory_peak = None,
      recursion_depth = n, request_id = request_counter self + 1\<rparr>)"
  using assms by (simp add: process_recursive_task_def Let_def)

lemma run_task_not_positive:
  assumes "n \<le> 0"
  shows "run_task eng h algorithm n use_optimization =
    Inl (ValueError ''Depth must be positive'')"
  unfolding run_task_def using assms by simp

lemma run_task_unoptimized_too_high:
  assumes "n > 10000"
  shows "run_task eng h algorithm n False =
    Inl (ValueError ''Unoptimized recursion depth too high'')"
  unfolding run_task_def using assms by simp

lemma run_task_naive_fibonacci_guard:
  assumes "35 < n" and "n \<le> 10000"
  shows "run_task eng h ''fibonacci'' n False =
    Inl (RecursionError (''Naive Fibonacci too slow for n='' @ str_int n))"
  unfolding run_task_def using assms by simp

lemma run_task_naive_tree_guard:
  assumes "500 < n" and "n \<le> 10000"
  shows "run_task eng h ''tree_traversal'' n False =
    Inl (RecursionError
          (if nat n < stack_room h then ''Naive tree traversal too deep for n='' @ str_int n
           else stack_overflow_message h))"
proof (cases "nat n < stack_room h")
  case True
  have "generate_deep_tree (stack_room h) (stack_overflow_message h) n = Inr (deep_tree n)"
    using True by (rule generate_deep_tree_returns)
  with True show ?thesis unfolding run_task_def using assms by simp
next
  case False
  then have "stack_room h \<le> nat n" by simp
  then have "generate_deep_tree (stack_room h) (stack_overflow_message h) n =
      Inl (RecursionError (stack_overflow_message h))"
    by (rule generate_deep_tree_overflows)
  with False show ?thesis unfolding run_task_def using assms by simp
qed

lemma run_task_unknown_algorithm:
  assumes "0 < n" and "n \<le> 10000"
    and "algorithm \<noteq> ''fibonacci''" and "algorithm \<noteq> ''tree_traversal''"
    and "algorithm \<noteq> ''pathfinding''"
  shows "run_task eng h algorithm n use_optimization =
    Inl (ValueError (''Unknown algorithm: '' @ algorithm))"
  unfolding run_task_def using assms by simp

text \<open>
  Claim C5.  A request with \<open>depth \<le> 0\<close>, and a request with \<open>depth > 10000\<close> and
  \<open>optimized = False\<close>, is rejected with a \<open>ValueError\<close> raised by the input validation,
  whatever the algorithm name: the \<open>try\<close> block ends there, before any branch that calls
  the engine.  The caller gets a failed result with the validation message, the error
  counter goes up, and the engine with its metrics list is left as it was.
\<close>

theorem process_recursive_task_invalid_depth:
  assumes "n \<le> 0 \<or> (n > 10000 \<and> \<not> use_optimization)"
  shows "run_task (recursion_engine self) h algorithm n use_optimization =
      Inl (ValueError (if n \<le> 0 then ''Depth must be positive''
                       else ''Unoptimized recursion depth too high'')) \<and>
    process_recursive_task self h algorithm n use_optimization =
      (self\<lparr>request_counter := request_counter self + 1,
            error_counter := error_counter self + 1\<rparr>,
       \<lparr>success = False, result = None,
        error = Some (''Error: '' @ (if n \<le> 0 then ''Depth must be positive''
                                     else ''Unoptimized recursion depth too high'')),
        execution_time = now h 1 - now h 0, memory_peak = None,
        recursion_depth = n, request_id = request_counter self + 1\<rparr>) \<and>
    recursion_depth_metrics
        (recursion_engine (fst (process_recursive_task self h algorithm n use_optimization))) =
      recursion_depth_metrics (recursion_engine self)"
proof -
  let ?msg = "if n \<le> 0 then ''Depth must be positive''
              else ''Unoptimized recursion depth too high''"
  have run: "run_task (recursion_engine self) h algorithm n use_optimization =
      Inl (ValueError ?msg)"
  proof (cases "n \<le> 0")
    case True
    then show ?thesis by (simp add: run_task_not_positive)
  next
    case False
    with assms have "n > 10000" and "use_optimization = False" by simp_all
    with False show ?thesis by (simp add: run_task_unoptimized_too_high)
  qed
  have "\<not> is_recursion_error (ValueError ?msg)" by simp
  from process_recursive_task_other_error [OF run this] run show ?thesis by simp
qed

theorem process_recursive_task_invalid_depth_witness:
  "process_recursive_task (new_dispatcher 1000)
      \<lparr>frame_names = (\<lambda>k. Inr 11), now = (\<lambda>k. real k), traced_peak = 4096,
        stack_room = 900, stack_overflow_message = ''maximum recursion depth exceeded''\<rparr>
      ''fibonacci'' (- 1) True =
     (\<lparr>recursion_engine = \<lparr>max_recursion_depth = 950, recursion_depth_metrics = []\<rparr>,
       request_counter = 1, error_counter = 1\<rparr>,
      \<lparr>success = False, result = None, error = Some ''Error: Depth must be positive'',
       execution_time = 1, memory_peak = None, recursion_depth = - 1, request_id = 1\<rparr>) \<and>
   process_recursive_task (new_dispatcher 1000)
      \<lparr>frame_names = (\<lambda>k. Inr 11), now = (\<lambda>k. real k), traced_peak = 4096,
        stack_room = 900, stack_overflow_message = ''maximum recursion depth exceeded''\<rparr>
      ''fibonacci'' 20000 False =
     (\<lparr>recursion_engine = \<lparr>max_recursion_depth = 950, recursion_depth_metrics = []\<rparr>,
       request_counter = 1, error_counter = 1\<rparr>,
      \<lparr>success = False, result = None,
       error = Some ''Error: Unoptimized recursion depth too high'',
       execution_time = 1, memory_peak = None, recursion_depth = 20000, request_id = 1\<rparr>)"
proof -
  have a: "(- 1::int) \<le> 0 \<or> ((- 1::int) > 10000 \<and> \<not> True)" by simp
  have b: "(20000::int) \<le> 0 \<or> ((20000::int) > 10000 \<and> \<not> False)" by simp
  from process_recursive_task_invalid_depth [OF a] process_recursive_task_invalid_depth [OF b]
  show ?thesis by (simp add: new_dispatcher_def)
qed

text \<open>
  Claim C4.  When the \<open>try\<close> block of a dispatch raises \<open>RecursionError\<close>, from a guard of
  the dispatcher or from the engine, the dispatcher appends exactly one metric with
  \<open>success = False\<close>, increments the error counter and returns (it does not raise) a result
  with \<open>success = False\<close>, the error text \<open>RecursionError: \<close> followed by the exception's
  message, an execution time, the requested depth and the request id.
\<close>

theorem process_recursive_task_depth_exceeded:
  assumes "run_task (recursion_engine self) h algorithm n use_optimization =
      Inl (RecursionError m)"
  shows "process_recursive_task self h algorithm n use_optimization =
    (self\<lparr>request_counter := request_counter self + 1,
          error_counter := error_counter self + 1,
          recursion_engine := (recursion_engine self)
            \<lparr>recursion_depth_metrics := recursion_depth_metrics (recursion_engine self) @
               [\<lparr>m_timestamp = now h 2, m_recursion_depth = n,
                 m_execution_time = now h 1 - now h 0, m_memory_usage = 0,
                 m_algorithm = algorithm, m_success = False\<rparr>]\<rparr>\<rparr>,
     \<lparr>success = False, result = None, error = Some (''RecursionError: '' @ m),
      execution_time = now h 3 - now h 0, memory_peak = None,
      recursion_depth = n, request_id = request_counter self + 1\<rparr>)"
proof -
  have "is_recursion_error (RecursionError m)" by simp
  from process_recursive_task_recursion_error [OF assms this]
  show ?thesis by (simp add: calculate_recursion_metrics_def)
qed

theorem process_recursive_task_depth_exceeded_witness:
  "process_recursive_task (new_dispatcher 1000)
      \<lparr>frame_names = (\<lambda>k. Inr 11), now = (\<lambda>k. real k), traced_peak = 4096,
        stack_room = 900, stack_overflow_message = ''maximum recursion depth exceeded''\<rparr>
      ''fibonacci'' 36 False =
     (\<lparr>recursion_engine = \<lparr>max_recursion_depth = 950, recursion_depth_metrics =
         [\<lparr>m_timestamp = 2, m_recursion_depth = 36, m_execution_time = 1, m_memory_usage = 0,
           m_algorithm = ''fibonacci'', m_success = False\<rparr>]\<rparr>,
       request_counter = 1, error_counter = 1\<rparr>,
      \<lparr>success = False, result = None,
       error = Some ''RecursionError: Naive Fibonacci too slow for n=36'',
       execution_time = 3, memory_peak = None, recursion_depth = 36, request_id = 1\<rparr>) \<and>
   process_recursive_task (new_dispatcher 1000)
      \<lparr>frame_names = (\<lambda>k. Inr 2000), now = (\<lambda>k. real k), traced_peak = 4096,
        stack_room = 900, stack_overflow_message = ''maximum recursion depth exceeded''\<rparr>
      ''fibonacci'' 10 False =
     (\<lparr>recursion_engine = \<lparr>max_recursion_depth = 950, recursion_depth_metrics =
         [\<lparr>m_timestamp = 2, m_recursion_depth = 10, m_execution_time = 1, m_memory_usage = 0,
           m_algorithm = ''fibonacci'', m_success = False\<rparr>]\<rparr>,
       request_counter = 1, error_counter = 1\<rparr>,
      \<lparr>success = False, result = None,
       error = Some ''RecursionError: Approaching recursion limit at depth 2000'',
       execution_time = 3, memory_peak = None, recursion_depth = 10, request_id = 1\<rparr>)"
proof -
  have guard: "run_task (recursion_engine (new_dispatcher 1000))
      \<lparr>frame_names = (\<lambda>k. Inr 11), now = (\<lambda>k. real k), traced_peak = 4096,
        stack_room = 900, stack_overflow_message = ''maximum recursion depth exceeded''\<rparr>
      ''fibonacci'' 36 False = Inl (RecursionError ''Naive Fibonacci too slow for n=36'')"
    by (simp add: run_task_def str_int_def str_nat.simps)
  have "fibonacci_naive (recursion_engine (new_dispatcher 1000)) (\<lambda>k. Inr 2000) 0 10 =
      Inl (RecursionError ''Approaching recursion limit at depth 2000'')"
    by (subst fibonacci_naive.simps) (simp add: new_dispatcher_def str_int_def str_nat.simps)
  then have eng: "run_task (recursion_engine (new_dispatcher 1000))
      \<lparr>frame_names = (\<lambda>k. Inr 2000), now = (\<lambda>k. real k), traced_peak = 4096,
        stack_room = 900, stack_overflow_message = ''maximum recursion depth exceeded''\<rparr>
      ''fibonacci'' 10 False =
      Inl (RecursionError ''Approaching recursion limit at depth 2000'')"
    by (simp add: run_task_def)
  from process_recursive_task_depth_exceeded [OF guard]
    process_recursive_task_depth_exceeded [OF eng]
  show ?thesis by (simp add: new_dispatcher_def)
qed

text \<open>
  Claim C3, as amended.  Every naive (\<open>optimized = False\<close>) Fibonacci dispatch with
  \<open>35 < n \<le> 10000\<close> fails with the \<open>RecursionError\<close> that the dispatcher's own guard raises
  before \<open>fibonacci_naive\<close> is called: the outcome is the same for every engine and host.
  The failure is recorded and returned as a failed result.  (Above 10000 the input
  validation comes first and raises \<open>ValueError\<close>.)
\<close>

theorem naive_fibonacci_guard:
  assumes "35 < n" and "n \<le> 10000"
  shows "run_task (recursion_engine self) h ''fibonacci'' n False =
      Inl (RecursionError (''Naive Fibonacci too slow for n='' @ str_int n)) \<and>
    process_recursive_task self h ''fibonacci'' n False =
      (self\<lparr>request_counter := request_counter self + 1,
            error_counter := error_counter self + 1,
            recursion_engine := (recursion_engine self)
              \<lparr>recursion_depth_metrics := recursion_depth_metrics (recursion_engine self) @
                 [\<lparr>m_timestamp = now h 2, m_recursion_depth = n,
                   m_execution_time = now h 1 - now h 0, m_memory_usage = 0,
                   m_algorithm = ''fibonacci'', m_success = False\<rparr>]\<rparr>\<rparr>,
       \<lparr>success = False, result = None,
        error = Some (''RecursionError: Naive Fibonacci too slow for n='' @ str_int n),
        execution_time = now h 3 - now h 0, memory_peak = None,
        recursion_depth = n, request_id = request_counter self + 1\<rparr>)"
proof -
  have run: "run_task (recursion_engine self) h ''fibonacci'' n False =
      Inl (RecursionError (''Naive Fibonacci too slow for n='' @ str_int n))"
    using assms by (rule run_task_naive_fibonacci_guard)
  have "is_recursion_error (RecursionError (''Naive Fibonacci too slow for n='' @ str_int n))"
    by simp
  from process_recursive_task_recursion_error [OF run this] run
  show ?thesis by (simp add: calculate_recursion_metrics_def)
qed

theorem naive_fibonacci_guard_witness:
  "run_task \<lparr>max_recursion_depth = 950, recursion_depth_metrics = []\<rparr>
      \<lparr>frame_names = (\<lambda>k. Inr 11), now = (\<lambda>k. real k), traced_peak = 4096,
        stack_room = 900, stack_overflow_message = ''maximum recursion depth exceeded''\<rparr>
      ''fibonacci'' 36 False =
     Inl (RecursionError ''Naive Fibonacci too slow for n=36'') \<and>
   snd (process_recursive_task (new_dispatcher 1000)
      \<lparr>frame_names = (\<lambda>k. Inr 11), now = (\<lambda>k. real k), traced_peak = 4096,
        stack_room = 900, stack_overflow_message = ''maximum recursion depth exceeded''\<rparr>
      ''fibonacci'' 36 False) =
     \<lparr>success = False, result = None,
      error = Some ''RecursionError: Naive Fibonacci too slow for n=36'',
      execution_time = 3, memory_peak = None, recursion_depth = 36, request_id = 1\<rparr>"
proof -
  have a: "(35::int) < 36" and b: "(36::int) \<le> 10000" by simp_all
  from naive_fibonacci_guard [OF a b, of "new_dispatcher 1000"
      "\<lparr>frame_names = (\<lambda>k. Inr 11), now = (\<lambda>k. real k), traced_peak = 4096,
        stack_room = 900, stack_overflow_message = ''maximum recursion depth exceeded''\<rparr>"]
  show ?thesis by (simp add: new_dispatcher_def str_int_def str_nat.simps)
qed

text \<open>
  The claim as stated (every naive Fibonacci call with \<open>n > 35\<close> fails with
  \<open>RecursionError\<close>) fails at \<open>n = 10001\<close>: the validation raises \<open>ValueError\<close>, the result
  carries the \<open>Error: \<close> text and no metric is recorded.
\<close>

theorem naive_fibonacci_above_validation_limit:
  "run_task \<lparr>max_recursion_depth = 950, recursion_depth_metrics = []\<rparr>
      \<lparr>frame_names = (\<lambda>k. Inr 11), now = (\<lambda>k. real k), traced_peak = 4096,
        stack_room = 900, stack_overflow_message = ''maximum recursion depth exceeded''\<rparr>
      ''fibonacci'' 10001 False =
     Inl (ValueError ''Unoptimized recursion depth too high'') \<and>
   process_recursive_task (new_dispatcher 1000)
      \<lparr>frame_names = (\<lambda>k. Inr 11), now = (\<lambda>k. real k), traced_peak = 4096,
        stack_room = 900, stack_overflow_message = ''maximum recursion depth exceeded''\<rparr>
      ''fibonacci'' 10001 False =
     (\<lparr>recursion_engine = \<lparr>max_recursion_depth = 950, recursion_depth_metrics = []\<rparr>,
       request_counter = 1, error_counter = 1\<rparr>,
      \<lparr>success = False, result = None,
       error = Some ''Error: Unoptimized recursion depth too high'',
       execution_time = 1, memory_peak = None, recursion_depth = 10001, request_id = 1\<rparr>)"
  by (simp add: process_recursive_task_def run_task_def new_dispatcher_def Let_def)

text \<open>
  Claim C10, as amended.  Every dispatch of \<open>tree_traversal\<close> with \<open>optimized = False\<close> and
  \<open>500 < depth \<le> 10000\<close> fails with a \<open>RecursionError\<close> before \<open>tree_traversal_naive\<close> is
  called, so no naive traversal of such a depth runs: the error is the one of the
  dispatcher's guard when the tree generation that precedes the guard returns, and the
  interpreter's own when that generation exhausts the recursion limit (from a depth of
  about 1000 at the default limit).  In both cases one failed metric is recorded and a
  failed result is returned.  (Above 10000 the input validation comes first:
  \<open>ValueError\<close>, nothing recorded.)
\<close>

theorem naive_tree_traversal_guard:
  assumes "500 < n" and "n \<le> 10000"
  shows "run_task (recursion_engine self) h ''tree_traversal'' n False =
      Inl (RecursionError
            (if nat n < stack_room h
             then ''Naive tree traversal too deep for n='' @ str_int n
             else stack_overflow_message h)) \<and>
    process_recursive_task self h ''tree_traversal'' n False =
      (self\<lparr>request_counter := request_counter self + 1,
            error_counter := error_counter self + 1,
            recursion_engine := (recursion_engine self)
              \<lparr>recursion_depth_metrics := recursion_depth_metrics (recursion_engine self) @
                 [\<lparr>m_timestamp = now h 2, m_recursion_depth = n,
                   m_execution_time = now h 1 - now h 0, m_memory_usage = 0,
                   m_algorithm = ''tree_traversal'', m_success = False\<rparr>]\<rparr>\<rparr>,
       \<lparr>success = False, result = None,
        error = Some (''RecursionError: '' @
          (if nat n < stack_room h
           then ''Naive tree traversal too deep for n='' @ str_int n
           else stack_overflow_message h)),
        execution_time = now h 3 - now h 0, memory_peak = None,
        recursion_depth = n, request_id = request_counter self + 1\<rparr>)"
proof -
  let ?m = "if nat n < stack_room h
            then ''Naive tree traversal too deep for n='' @ str_int n
            else stack_overflow_message h"
  have run: "run_task (recursion_engine self) h ''tree_traversal'' n False =
      Inl (RecursionError ?m)"
    using assms by (rule run_task_naive_tree_guard)
  have "is_recursion_error (RecursionError ?m)" by simp
  from process_recursive_task_recursion_error [OF run this] run
  show ?thesis by (simp add: calculate_recursion_metrics_def)
qed

theorem naive_tree_traversal_guard_witness:
  "process_recursive_task (new_dispatcher 1000)
      \<lparr>frame_names = (\<lambda>k. Inr 11), now = (\<lambda>k. real k), traced_peak = 4096,
        stack_room = 900, stack_overflow_message = ''maximum recursion depth exceeded''\<rparr>
      ''tree_traversal'' 501 False =
     (\<lparr>recursion_engine = \<lparr>max_recursion_depth = 950, recursion_depth_metrics =
         [\<lparr>m_timestamp = 2, m_recursion_depth = 501, m_execution_time = 1, m_memory_usage = 0,
           m_algorithm = ''tree_traversal'', m_success = False\<rparr>]\<rparr>,
       request_counter = 1, error_counter = 1\<rparr>,
      \<lparr>success = False, result = None,
       error = Some ''RecursionError: Naive tree traversal too deep for n=501'',
       execution_time = 3, memory_peak = None, recursion_depth = 501, request_id = 1\<rparr>) \<and>
   process_recursive_task (new_dispatcher 1000)
      \<lparr>frame_names = (\<lambda>k. Inr 11), now = (\<lambda>k. real k), traced_peak = 4096,
        stack_room = 900, stack_overflow_message = ''maximum recursion depth exceeded''\<rparr>
      ''tree_traversal'' 1000 False =
     (\<lparr>recursion_engine = \<lparr>max_recursion_depth = 950, recursion_depth_metrics =
         [\<lparr>m_timestamp = 2, m_recursion_depth = 1000, m_execution_time = 1, m_memory_usage = 0,
           m_algorithm = ''tree_traversal'', m_success = False\<rparr>]\<rparr>,
       request_counter = 1, error_counter = 1\<rparr>,
      \<lparr>success = False, result = None,
       error = Some ''RecursionError: maximum recursion depth exceeded'',
       execution_time = 3, memory_peak = None, recursion_depth = 1000, request_id = 1\<rparr>)"
proof -
  have a: "(500::int) < 501" and b: "(501::int) \<le> 10000" by simp_all
  have c: "(500::int) < 1000" and d: "(1000::int) \<le> 10000" by simp_all
  from naive_tree_traversal_guard [OF a b, of "new_dispatcher 1000"
      "\<lparr>frame_names = (\<lambda>k. Inr 11), now = (\<lambda>k. real k), traced_peak = 4096,
        stack_room = 900, stack_overflow_message = ''maximum recursion depth exceeded''\<rparr>"]
    naive_tree_traversal_guard [OF c d, of "new_dispatcher 1000"
      "\<lparr>frame_names = (\<lambda>k. Inr 11), now = (\<lambda>k. real k), traced_peak = 4096,
        stack_room = 900, stack_overflow_message = ''maximum recursion depth exceeded''\<rparr>"]
  show ?thesis by (simp add: new_dispatcher_def str_int_def str_nat.simps)
qed

text \<open>
  The claim as stated (every unoptimized \<open>tree_traversal\<close> dispatch with \<open>depth > 500\<close>
  records a failed metric) fails at \<open>depth = 10001\<close>: the validation raises \<open>ValueError\<close> and
  the metrics list stays empty.
\<close>

theorem naive_tree_traversal_above_validation_limit:
  "run_task \<lparr>max_recursion_depth = 950, recursion_depth_metrics = []\<rparr>
      \<lparr>frame_names = (\<lambda>k. Inr 11), now = (\<lambda>k. real k), traced_peak = 4096,
        stack_room = 900, stack_overflow_message = ''maximum recursion depth exceeded''\<rparr>
      ''tree_traversal'' 10001 False =
     Inl (ValueError ''Unoptimized recursion depth too high'') \<and>
   process_recursive_task (new_dispatcher 1000)
      \<lparr>frame_names = (\<lambda>k. Inr 11), now = (\<lambda>k. real k), traced_peak = 4096,
        stack_room = 900, stack_overflow_message = ''maximum recursion depth exceeded''\<rparr>
      ''tree_traversal'' 10001 False =
     (\<lparr>recursion_engine = \<lparr>max_recursion_depth = 950, recursion_depth_metrics = []\<rparr>,
       request_counter = 1, error_counter = 1\<rparr>,
      \<lparr>success = False, result = None,
       error = Some ''Error: Unoptimized recursion depth too high'',
       execution_time = 1, memory_peak = None, recursion_depth = 10001, request_id = 1\<rparr>)"
  by (simp add: process_recursive_task_def run_task_def new_dispatcher_def Let_def)

text \<open>
  Claim C6, as amended.  Every exception of the \<open>try\<close> block other than \<open>RecursionError\<close>
  (an unknown algorithm name, for one) is returned to the caller as a failed result whose
  error is \<open>Error: \<close> followed by the exception's message, and increments the error
  counter; it is not recorded: the engine and its metrics list are left as they were.
\<close>

theorem process_recursive_task_other_failure:
  assumes "run_task (recursion_engine self) h algorithm n use_optimization = Inl e"
    and "\<not> is_recursion_error e"
  shows "process_recursive_task self h algorithm n use_optimization =
      (self\<lparr>request_counter := request_counter self + 1,
            error_counter := error_counter self + 1\<rparr>,
       \<lparr>success = False, result = None, error = Some (''Error: '' @ str_exn e),
        execution_time = now h 1 - now h 0, memory_peak = None,
        recursion_depth = n, request_id = request_counter self + 1\<rparr>) \<and>
    recursion_depth_metrics
        (recursion_engine (fst (process_recursive_task self h algorithm n use_optimization))) =
      recursion_depth_metrics (recursion_engine self)"
  using process_recursive_task_other_error [OF assms] by simp

theorem process_recursive_task_other_failure_witness:
  "process_recursive_task (new_dispatcher 1000)
      \<lparr>frame_names = (\<lambda>k. Inr 11), now = (\<lambda>k. real k), traced_peak = 4096,
        stack_room = 900, stack_overflow_message = ''maximum recursion depth exceeded''\<rparr>
      ''bogus'' 7 False =
     (\<lparr>recursion_engine = \<lparr>max_recursion_depth = 950, recursion_depth_metrics = []\<rparr>,
       request_counter = 1, error_counter = 1\<rparr>,
      \<lparr>success = False, result = None, error = Some ''Error: Unknown algorithm: bogus'',
       execution_time = 1, memory_peak = None, recursion_depth = 7, request_id = 1\<rparr>)"
proof -
  have run: "run_task (recursion_engine (new_dispatcher 1000))
      \<lparr>frame_names = (\<lambda>k. Inr 11), now = (\<lambda>k. real k), traced_peak = 4096,
        stack_room = 900, stack_overflow_message = ''maximum recursion depth exceeded''\<rparr>
      ''bogus'' 7 False = Inl (ValueError ''Unknown algorithm: bogus'')"
    by (simp add: run_task_def)
  have "\<not> is_recursion_error (ValueError ''Unknown algorithm: bogus'')" by simp
  from process_recursive_task_other_failure [OF run this]
  show ?thesis by (simp add: new_dispatcher_def)
qed

text \<open>
  The claim as stated (every such failure is always recorded as a metric) fails for the
  unknown algorithm name: after the dispatch the metrics list is still empty, while the
  error counter is 1.
\<close>

theorem unknown_algorithm_not_recorded:
  "process_recursive_task (new_dispatcher 1000)
      \<lparr>frame_names = (\<lambda>k. Inr 11), now = (\<lambda>k. real k), traced_peak = 4096,
        stack_room = 900, stack_overflow_message = ''maximum recursion depth exceeded''\<rparr>
      ''bogus'' 5 True =
     (\<lparr>recursion_engine = \<lparr>max_recursion_depth = 950, recursion_depth_metrics = []\<rparr>,
       request_counter = 1, error_counter = 1\<rparr>,
      \<lparr>success = False, result = None, error = Some ''Error: Unknown algorithm: bogus'',
       execution_time = 1, memory_peak = None, recursion_depth = 5, request_id = 1\<rparr>)"
  by (simp add: process_recursive_task_def run_task_def new_dispatcher_def Let_def)


section \<open>Statistics after a sequence of dispatches\<close>

lemma process_recursive_task_effect:
  assumes "process_recursive_task self h algorithm n use_optimization = (self', r)"
  shows "request_counter self' = request_counter self + 1"
    and "map m_execution_time (filter m_success (recursion_depth_metrics (recursion_engine self'))) =
      map m_execution_time (filter m_success (recursion_depth_metrics (recursion_engine self))) @
        (if success r then [execution_time r] else [])"
    and "length (filter (\<lambda>m. \<not> m_success m) (recursion_depth_metrics (recursion_engine self'))) =
      length (filter (\<lambda>m. \<not> m_success m) (recursion_depth_metrics (recursion_engine self))) +
        (if failed_recorded r then 1 else 0)"
    and "success r \<or> failed_recorded r \<or> failed_unrecorded r"
proof -
  consider (ok) res where "run_task (recursion_engine self) h algorithm n use_optimization = Inr res"
    | (rec) e where "run_task (recursion_engine self) h algorithm n use_optimization = Inl e"
        "is_recursion_error e"
    | (other) e where "run_task (recursion_engine self) h algorithm n use_optimization = Inl e"
        "\<not> is_recursion_error e"
    by (cases "run_task (recursion_engine self) h algorithm n use_optimization") auto
  then have "request_counter self' = request_counter self + 1 \<and>
    map m_execution_time (filter m_success (recursion_depth_metrics (recursion_engine self'))) =
      map m_execution_time (filter m_success (recursion_depth_metrics (recursion_engine self))) @
        (if success r then [execution_time r] else []) \<and>
    length (filter (\<lambda>m. \<not> m_success m) (recursion_depth_metrics (recursion_engine self'))) =
      length (filter (\<lambda>m. \<not> m_success m) (recursion_depth_metrics (recursion_engine self))) +
        (if failed_recorded r then 1 else 0) \<and>
    (success r \<or> failed_recorded r \<or> failed_unrecorded r)"
  proof cases
    case ok
    from process_recursive_task_Inr [OF ok] assms show ?thesis
      by (auto simp: calculate_recursion_metrics_def failed_recorded_def)
  next
    case rec
    from process_recursive_task_recursion_error [OF rec] assms show ?thesis
      by (auto simp: calculate_recursion_metrics_def failed_recorded_def)
  next
    case other
    from process_recursive_task_other_error [OF other] assms show ?thesis
      by (auto simp: failed_recorded_def failed_unrecorded_def)
  qed
  then show "request_counter self' = request_counter self + 1"
    and "map m_execution_time (filter m_success (recursion_depth_metrics (recursion_engine self'))) =
      map m_execution_time (filter m_success (recursion_depth_metrics (recursion_engine self))) @
        (if success r then [execution_time r] else [])"
    and "length (filter (\<lambda>m. \<not> m_success m) (recursion_depth_metrics (recursion_engine self'))) =
      length (filter (\<lambda>m. \<not> m_success m) (recursion_depth_metrics (recursion_engine self))) +
        (if failed_recorded r then 1 else 0)"
    and "success r \<or> failed_recorded r \<or> failed_unrecorded r"
    by simp_all
qed

lemma dispatch_all_effect:
  "dispatch_all self reqs = (self', rs) \<Longrightarrow>
    length rs = length reqs \<and>
    request_counter self' = request_counter self + int (length reqs) \<and>
    map m_execution_time (filter m_success (recursion_depth_metrics (recursion_engine self'))) =
      map m_execution_time (filter m_success (recursion_depth_metrics (recursion_engine self))) @
        map execution_time (filter success rs) \<and>
    length (filter (\<lambda>m. \<not> m_success m) (recursion_depth_metrics (recursion_engine self'))) =
      length (filter (\<lambda>m. \<not> m_success m) (recursion_depth_metrics (recursion_engine self))) +
        length (filter failed_recorded rs) \<and>
    length (filter success rs) + length (filter failed_recorded rs) +
      length (filter failed_unrecorded rs) = length rs"
proof (induction reqs arbitrary: self self' rs)
  case Nil
  then show ?case by simp
next
  case (Cons q reqs)
  obtain s1 r where step: "process_recursive_task self (req_host q) (req_algorithm q)
      (req_depth q) (req_optimized q) = (s1, r)"
    by (cases "process_recursive_task self (req_host q) (req_algorithm q)
      (req_depth q) (req_optimized q)")
  obtain s2 ress where rest: "dispatch_all s1 reqs = (s2, ress)"
    by (cases "dispatch_all s1 reqs")
  from Cons.prems step rest have eq: "self' = s2" "rs = r # ress" by simp_all
  note e = process_recursive_task_effect [OF step]
  note ih = Cons.IH [OF rest]
  have excl: "\<not> (success r \<and> failed_recorded r)" "\<not> (success r \<and> failed_unrecorded r)"
    "\<not> (failed_recorded r \<and> failed_unrecorded r)"
    by (auto simp: failed_recorded_def failed_unrecorded_def)
  from e(4) excl ih have count: "length (filter success (r # ress)) +
      length (filter failed_recorded (r # ress)) +
      length (filter failed_unrecorded (r # ress)) = length (r # ress)"
    by auto
  from e(1-3) ih count show ?case unfolding eq by simp
qed

text \<open>
  Claim C7, as amended.  After any sequence of dispatches on a fresh dispatcher, with \<open>N\<close>
  successful, \<open>M\<close> failed-and-recorded and \<open>K\<close> failed-and-unrecorded dispatches (the
  rejected ones), the statistics report \<open>total_requests = N + M + K\<close>, the request
  counter; \<open>successful_requests = N\<close>; \<open>failed_requests = M\<close>;
  \<open>error_rate = M / (N + M + K) * 100\<close>, and 0 when there was no dispatch; and the mean
  and the maximum of the execution times of the successful dispatches only (0 when there
  is none).  When no dispatch was rejected, \<open>K = 0\<close> and these are \<open>N + M\<close> and
  \<open>M / (N + M) * 100\<close>.
\<close>

theorem get_performance_stats_after_dispatches:
  assumes "dispatch_all (new_dispatcher limit) reqs = (self, rs)"
  shows "total_requests (get_performance_stats self) =
      int (length (filter success rs) + length (filter failed_recorded rs) +
           length (filter failed_unrecorded rs)) \<and>
    successful_requests (get_performance_stats self) = length (filter success rs) \<and>
    failed_requests (get_performance_stats self) = length (filter failed_recorded rs) \<and>
    error_rate (get_performance_stats self) =
      (if rs = [] then 0
       else real (length (filter failed_recorded rs)) /
            real (length (filter success rs) + length (filter failed_recorded rs) +
                  length (filter failed_unrecorded rs)) * 100) \<and>
    avg_execution_time (get_performance_stats self) =
      (if filter success rs = [] then 0
       else sum_list (map execution_time (filter success rs)) /
            real (length (filter success rs))) \<and>
    max_execution_time (get_performance_stats self) =
      (if filter success rs = [] then 0
       else Max (set (map execution_time (filter success rs))))"
proof -
  let ?ms = "recursion_depth_metrics (recursion_engine self)"
  let ?ok = "filter success rs"
  from dispatch_all_effect [OF assms]
  have len: "length rs = length reqs"
    and rc: "request_counter self = int (length reqs)"
    and times: "map m_execution_time (filter m_success ?ms) = map execution_time ?ok"
    and failed: "length (filter (\<lambda>m. \<not> m_success m) ?ms) = length (filter failed_recorded rs)"
    and count: "length ?ok + length (filter failed_recorded rs) +
      length (filter failed_unrecorded rs) = length rs"
    by (simp_all add: new_dispatcher_def)
  from times have nsucc: "length (filter m_success ?ms) = length ?ok"
    by (metis length_map)
  from nsucc have empty: "filter m_success ?ms = [] \<longleftrightarrow> ?ok = []"
    by (metis length_0_conv)
  have total: "total_requests (get_performance_stats self) = int (length rs)"
    by (simp add: get_performance_stats_def Let_def rc len)
  have succ: "successful_requests (get_performance_stats self) = length ?ok"
    by (simp add: get_performance_stats_def Let_def nsucc)
  have fail: "failed_requests (get_performance_stats self) = length (filter failed_recorded rs)"
    by (simp add: get_performance_stats_def Let_def failed)
  have rate: "error_rate (get_performance_stats self) =
      (if rs = [] then 0
       else real (length (filter failed_recorded rs)) / real (length rs) * 100)"
    using len by (simp add: get_performance_stats_def Let_def rc failed)
  have avg: "avg_execution_time (get_performance_stats self) =
      (if ?ok = [] then 0 else sum_list (map execution_time ?ok) / real (length ?ok))"
    by (simp add: get_performance_stats_def Let_def times empty)
  have mx: "max_execution_time (get_performance_stats self) =
      (if ?ok = [] then 0 else Max (set (map execution_time ?ok)))"
  proof (cases "?ok = []")
    case True
    then show ?thesis by (simp add: get_performance_stats_def Let_def times empty)
  next
    case False
    then obtain t ts where ts: "map execution_time ?ok = t # ts"
      by (cases "map execution_time ?ok") auto
    have "Max (set (t # ts)) = fold max ts t" by (rule Max.set_eq_fold)
    with False ts show ?thesis by (simp add: get_performance_stats_def Let_def times empty)
  qed
  from total succ fail rate avg mx count show ?thesis by simp
qed

theorem get_performance_stats_after_dispatches_witness:
  "total_requests (get_performance_stats (fst (dispatch_all (new_dispatcher 1000)
      [\<lparr>req_host = \<lparr>frame_names = (\<lambda>k. Inr 11), now = (\<lambda>k. real k), traced_peak = 4096,
        stack_room = 900, stack_overflow_message = ''maximum recursion depth exceeded''\<rparr>,
        req_algorithm = ''fibonacci'', req_depth = 5, req_optimized = True\<rparr>,
       \<lparr>req_host = \<lparr>frame_names = (\<lambda>k. Inr 11), now = (\<lambda>k. real k), traced_peak = 4096,
        stack_room = 900, stack_overflow_message = ''maximum recursion depth exceeded''\<rparr>,
        req_algorithm = ''fibonacci'', req_depth = 36, req_optimized = False\<rparr>]))) = 2 \<and>
   error_rate (get_performance_stats (fst (dispatch_all (new_dispatcher 1000)
      [\<lparr>req_host = \<lparr>frame_names = (\<lambda>k. Inr 11), now = (\<lambda>k. real k), traced_peak = 4096,
        stack_room = 900, stack_overflow_message = ''maximum recursion depth exceeded''\<rparr>,
        req_algorithm = ''fibonacci'', req_depth = 5, req_optimized = True\<rparr>,
       \<lparr>req_host = \<lparr>frame_names = (\<lambda>k. Inr 11), now = (\<lambda>k. real k), traced_peak = 4096,
        stack_room = 900, stack_overflow_message = ''maximum recursion depth exceeded''\<rparr>,
        req_algorithm = ''fibonacci'', req_depth = 36, req_optimized = False\<rparr>]))) = 50 \<and>
   avg_execution_time (get_performance_stats (fst (dispatch_all (new_dispatcher 1000)
      [\<lparr>req_host = \<lparr>frame_names = (\<lambda>k. Inr 11), now = (\<lambda>k. real k), traced_peak = 4096,
        stack_room = 900, stack_overflow_message = ''maximum recursion depth exceeded''\<rparr>,
        req_algorithm = ''fibonacci'', req_depth = 5, req_optimized = True\<rparr>,
       \<lparr>req_host = \<lparr>frame_names = (\<lambda>k. Inr 11), now = (\<lambda>k. real k), traced_peak = 4096,
        stack_room = 900, stack_overflow_message = ''maximum recursion depth exceeded''\<rparr>,
        req_algorithm = ''fibonacci'', req_depth = 36, req_optimized = False\<rparr>]))) = 1"
proof -
  let ?H = "\<lparr>frame_names = (\<lambda>k. Inr 11), now = (\<lambda>k. real k), traced_peak = 4096,
        stack_room = 900, stack_overflow_message = ''maximum recursion depth exceeded''\<rparr>"
  let ?reqs = "[\<lparr>req_host = ?H, req_algorithm = ''fibonacci'', req_depth = 5, req_optimized = True\<rparr>,
       \<lparr>req_host = ?H, req_algorithm = ''fibonacci'', req_depth = 36, req_optimized = False\<rparr>]"
  have five: "fibonacci_iterative 5 = Inr 5" by code_simp
  have ev: "dispatch_all (new_dispatcher 1000) ?reqs =
     (\<lparr>recursion_engine = \<lparr>max_recursion_depth = 950, recursion_depth_metrics =
         [\<lparr>m_timestamp = 2, m_recursion_depth = 5, m_execution_time = 1, m_memory_usage = 4096,
           m_algorithm = ''fibonacci'', m_success = True\<rparr>,
          \<lparr>m_timestamp = 2, m_recursion_depth = 36, m_execution_time = 1, m_memory_usage = 0,
           m_algorithm = ''fibonacci'', m_success = False\<rparr>]\<rparr>,
       request_counter = 2, error_counter = 1\<rparr>,
      [\<lparr>success = True, result = Some (IntResult 5), error = None, execution_time = 1,
        memory_peak = Some 4096, recursion_depth = 5, request_id = 1\<rparr>,
       \<lparr>success = False, result = None,
        error = Some ''RecursionError: Naive Fibonacci too slow for n=36'',
        execution_time = 3, memory_peak = None, recursion_depth = 36, request_id = 2\<rparr>])"
    by (simp add: process_recursive_task_def run_task_def five new_dispatcher_def
        calculate_recursion_metrics_def Let_def str_int_def str_nat.simps)
  have f: "fst (dispatch_all (new_dispatcher 1000) ?reqs) =
      \<lparr>recursion_engine = \<lparr>max_recursion_depth = 950, recursion_depth_metrics =
         [\<lparr>m_timestamp = 2, m_recursion_depth = 5, m_execution_time = 1, m_memory_usage = 4096,
           m_algorithm = ''fibonacci'', m_success = True\<rparr>,
          \<lparr>m_timestamp = 2, m_recursion_depth = 36, m_execution_time = 1, m_memory_usage = 0,
           m_algorithm = ''fibonacci'', m_success = False\<rparr>]\<rparr>,
       request_counter = 2, error_counter = 1\<rparr>"
    by (simp only: ev fst_conv)
  from get_performance_stats_after_dispatches [OF ev]
  show ?thesis unfolding f by (simp add: failed_recorded_def failed_unrecorded_def)
qed

text \<open>
  The claim as stated (\<open>total_requests = N + M\<close> and \<open>error_rate = M / (N + M) * 100\<close>)
  fails as soon as the sequence holds a rejected dispatch: after one success, one
  recorded failure and one request with depth 0, \<open>N = 1\<close> and \<open>M = 1\<close>, but
  \<open>total_requests\<close> is 3 and \<open>error_rate\<close> is 100 / 3.
\<close>

theorem get_performance_stats_counts_rejected:
  "length (filter success (snd (dispatch_all (new_dispatcher 1000)
      [\<lparr>req_host = \<lparr>frame_names = (\<lambda>k. Inr 11), now = (\<lambda>k. real k), traced_peak = 4096,
        stack_room = 900, stack_overflow_message = ''maximum recursion depth exceeded''\<rparr>,
        req_algorithm = ''fibonacci'', req_depth = 5, req_optimized = True\<rparr>,
       \<lparr>req_host = \<lparr>frame_names = (\<lambda>k. Inr 11), now = (\<lambda>k. real k), traced_peak = 4096,
        stack_room = 900, stack_overflow_message = ''maximum recursion depth exceeded''\<rparr>,
        req_algorithm = ''fibonacci'', req_depth = 36, req_optimized = False\<rparr>,
       \<lparr>req_host = \<lparr>frame_names = (\<lambda>k. Inr 11), now = (\<lambda>k. real k), traced_peak = 4096,
        stack_room = 900, stack_overflow_message = ''maximum recursion depth exceeded''\<rparr>,
        req_algorithm = ''fibonacci'', req_depth = 0, req_optimized = True\<rparr>]))) = 1 \<and>
   length (filter failed_recorded (snd (dispatch_all (new_dispatcher 1000)
      [\<lparr>req_host = \<lparr>frame_names = (\<lambda>k. Inr 11), now = (\<lambda>k. real k), traced_peak = 4096,
        stack_room = 900, stack_overflow_message = ''maximum recursion depth exceeded''\<rparr>,
        req_algorithm = ''fibonacci'', req_depth = 5, req_optimized = True\<rparr>,
       \<lparr>req_host = \<lparr>frame_names = (\<lambda>k. Inr 11), now = (\<lambda>k. real k), traced_peak = 4096,
        stack_room = 900, stack_overflow_message = ''maximum recursion depth exceeded''\<rparr>,
        req_algorithm = ''fibonacci'', req_depth = 36, req_optimized = False\<rparr>,
       \<lparr>req_host = \<lparr>frame_names = (\<lambda>k. Inr 11), now = (\<lambda>k. real k), traced_peak = 4096,
        stack_room = 900, stack_overflow_message = ''maximum recursion depth exceeded''\<rparr>,
        req_algorithm = ''fibonacci'', req_depth = 0, req_optimized = True\<rparr>]))) = 1 \<and>
   total_requests (get_performance_stats (fst (dispatch_all (new_dispatcher 1000)
      [\<lparr>req_host = \<lparr>frame_names = (\<lambda>k. Inr 11), now = (\<lambda>k. real k), traced_peak = 4096,
        stack_room = 900, stack_overflow_message = ''maximum recursion depth exceeded''\<rparr>,
        req_algorithm = ''fibonacci'', req_depth = 5, req_optimized = True\<rparr>,
       \<lparr>req_host = \<lparr>frame_names = (\<lambda>k. Inr 11), now = (\<lambda>k. real k), traced_peak = 4096,
        stack_room = 900, stack_overflow_message = ''maximum recursion depth exceeded''\<rparr>,
        req_algorithm = ''fibonacci'', req_depth = 36, req_optimized = False\<rparr>,
       \<lparr>req_host = \<lparr>frame_names = (\<lambda>k. Inr 11), now = (\<lambda>k. real k), traced_peak = 4096,
        stack_room = 900, stack_overflow_message = ''maximum recursion depth exceeded''\<rparr>,
        req_algorithm = ''fibonacci'', req_depth = 0, req_optimized = True\<rparr>]))) = 3 \<and>
   error_rate (get_performance_stats (fst (dispatch_all (new_dispatcher 1000)
      [\<lparr>req_host = \<lparr>frame_names = (\<lambda>k. Inr 11), now = (\<lambda>k. real k), traced_peak = 4096,
        stack_room = 900, stack_overflow_message = ''maximum recursion depth exceeded''\<rparr>,
        req_algorithm = ''fibonacci'', req_depth = 5, req_optimized = True\<rparr>,
       \<lparr>req_host = \<lparr>frame_names = (\<lambda>k. Inr 11), now = (\<lambda>k. real k), traced_peak = 4096,
        stack_room = 900, stack_overflow_message = ''maximum recursion depth exceeded''\<rparr>,
        req_algorithm = ''fibonacci'', req_depth = 36, req_optimized = False\<rparr>,
       \<lparr>req_host = \<lparr>frame_names = (\<lambda>k. Inr 11), now = (\<lambda>k. real k), traced_peak = 4096,
        stack_room = 900, stack_overflow_message = ''maximum recursion depth exceeded''\<rparr>,
        req_algorithm = ''fibonacci'', req_depth = 0, req_optimized = True\<rparr>]))) = 100 / 3"
proof -
  let ?H = "\<lparr>frame_names = (\<lambda>k. Inr 11), now = (\<lambda>k. real k), traced_peak = 4096,
        stack_room = 900, stack_overflow_message = ''maximum recursion depth exceeded''\<rparr>"
  let ?reqs = "[\<lparr>req_host = ?H, req_algorithm = ''fibonacci'', req_depth = 5, req_optimized = True\<rparr>,
       \<lparr>req_host = ?H, req_algorithm = ''fibonacci'', req_depth = 36, req_optimized = False\<rparr>,
       \<lparr>req_host = ?H, req_algorithm = ''fibonacci'', req_depth = 0, req_optimized = True\<rparr>]"
  have five: "fibonacci_iterative 5 = Inr 5" by code_simp
  have ev: "dispatch_all (new_dispatcher 1000) ?reqs =
     (\<lparr>recursion_engine = \<lparr>max_recursion_depth = 950, recursion_depth_metrics =
         [\<lparr>m_timestamp = 2, m_recursion_depth = 5, m_execution_time = 1, m_memory_usage = 4096,
           m_algorithm = ''fibonacci'', m_success = True\<rparr>,
          \<lparr>m_timestamp = 2, m_recursion_depth = 36, m_execution_time = 1, m_memory_usage = 0,
           m_algorithm = ''fibonacci'', m_success = False\<rparr>]\<rparr>,
       request_counter = 3, error_counter = 2\<rparr>,
      [\<lparr>success = True, result = Some (IntResult 5), error = None, execution_time = 1,
        memory_peak = Some 4096, recursion_depth = 5, request_id = 1\<rparr>,
       \<lparr>success = False, result = None,
        error = Some ''RecursionError: Naive Fibonacci too slow for n=36'',
        execution_time = 3, memory_peak = None, recursion_depth = 36, request_id = 2\<rparr>,
       \<lparr>success = False, result = None, error = Some ''Error: Depth must be positive'',
        execution_time = 1, memory_peak = None, recursion_depth = 0, request_id = 3\<rparr>])"
    by (simp add: process_recursive_task_def run_task_def five new_dispatcher_def
        calculate_recursion_metrics_def Let_def str_int_def str_nat.simps)
  have f: "fst (dispatch_all (new_dispatcher 1000) ?reqs) =
      \<lparr>recursion_engine = \<lparr>max_recursion_depth = 950, recursion_depth_metrics =
         [\<lparr>m_timestamp = 2, m_recursion_depth = 5, m_execution_time = 1, m_memory_usage = 4096,
           m_algorithm = ''fibonacci'', m_success = True\<rparr>,
          \<lparr>m_timestamp = 2, m_recursion_depth = 36, m_execution_time = 1, m_memory_usage = 0,
           m_algorithm = ''fibonacci'', m_success = False\<rparr>]\<rparr>,
       request_counter = 3, error_counter = 2\<rparr>"
    by (simp only: ev fst_conv)
  have s: "snd (dispatch_all (new_dispatcher 1000) ?reqs) =
      [\<lparr>success = True, result = Some (IntResult 5), error = None, execution_time = 1,
        memory_peak = Some 4096, recursion_depth = 5, request_id = 1\<rparr>,
       \<lparr>success = False, result = None,
        error = Some ''RecursionError: Naive Fibonacci too slow for n=36'',
        execution_time = 3, memory_peak = None, recursion_depth = 36, request_id = 2\<rparr>,
       \<lparr>success = False, result = None, error = Some ''Error: Depth must be positive'',
        execution_time = 1, memory_peak = None, recursion_depth = 0, request_id = 3\<rparr>]"
    by (simp only: ev snd_conv)
  show ?thesis unfolding f s
    by (simp add: get_performance_stats_def Let_def failed_recorded_def)
qed

end
